theory Spec2Isabelle
  imports Complex_Main "HOL-Library.Log_Nat"
begin

section \<open>Python values used by app.py\<close>

text \<open>
  The three exceptions that the modelled functions of \<^verbatim>\<open>app.py\<close> can raise.
  A function whose body indexes a list or a dict, or divides, returns
  \<open>py_error + 'a\<close>; \<open>Inl\<close> is the raised exception.
\<close>

datatype py_error = KeyError | IndexError | ZeroDivisionError

definition bind_err :: "py_error + 'a \<Rightarrow> ('a \<Rightarrow> py_error + 'b) \<Rightarrow> py_error + 'b" where
  "bind_err m f = (case m of Inl e \<Rightarrow> Inl e | Inr x \<Rightarrow> f x)"

text \<open>
  A Python \<^verbatim>\<open>dict\<close> keeps its keys in insertion order and holds every key once.
  It is an association list; storing under a key that is already present replaces the
  value in place, storing under a new key appends at the end.
\<close>

type_synonym ('k, 'v) pydict = "('k \<times> 'v) list"

definition wf_dict :: "('k, 'v) pydict \<Rightarrow> bool" where
  "wf_dict d = distinct (map fst d)"

fun dict_set :: "('k, 'v) pydict \<Rightarrow> 'k \<Rightarrow> 'v \<Rightarrow> ('k, 'v) pydict" where
  "dict_set [] k v = [(k, v)]"
| "dict_set ((k', v') # d) k v =
     (if k' = k then (k, v) # d else (k', v') # dict_set d k v)"

definition dict_keys :: "('k, 'v) pydict \<Rightarrow> 'k list" where
  "dict_keys d = map fst d"

definition dict_values :: "('k, 'v) pydict \<Rightarrow> 'v list" where
  "dict_values d = map snd d"

definition dict_contains :: "('k, 'v) pydict \<Rightarrow> 'k \<Rightarrow> bool" where
  "dict_contains d k = (k \<in> set (dict_keys d))"

definition dict_getitem :: "('k, 'v) pydict \<Rightarrow> 'k \<Rightarrow> py_error + 'v" where
  "dict_getitem d k = (case map_of d k of None \<Rightarrow> Inl KeyError | Some v \<Rightarrow> Inr v)"

definition dict_get :: "('k, 'v) pydict \<Rightarrow> 'k \<Rightarrow> 'v \<Rightarrow> 'v" where
  "dict_get d k dflt = (case map_of d k of None \<Rightarrow> dflt | Some v \<Rightarrow> v)"

text \<open>\<^verbatim>\<open>dict(pairs)\<close>: the pairs are stored one after the other, from the left.\<close>

fun dict_update :: "('k, 'v) pydict \<Rightarrow> ('k \<times> 'v) list \<Rightarrow> ('k, 'v) pydict" where
  "dict_update d [] = d"
| "dict_update d ((k, v) # ps) = dict_update (dict_set d k v) ps"

definition dict_of :: "('k \<times> 'v) list \<Rightarrow> ('k, 'v) pydict" where
  "dict_of ps = dict_update [] ps"

text \<open>\<^verbatim>\<open>xs[i]\<close>: a negative index counts from the end, an index out of range raises.\<close>

definition list_getitem :: "'a list \<Rightarrow> int \<Rightarrow> py_error + 'a" where
  "list_getitem xs i =
     (let k = (if i < 0 then int (length xs) + i else i)
      in if k < 0 \<or> int (length xs) \<le> k then Inl IndexError else Inr (xs ! nat k))"

section \<open>The parsed document\<close>

text \<open>
  BeautifulSoup's tree: a node is a string or a tag with a name, attributes and
  children. \<^verbatim>\<open>find_all\<close> walks the descendants of a node in document order,
  \<^verbatim>\<open>find\<close> returns the first match or \<^verbatim>\<open>None\<close>, \<^verbatim>\<open>.text\<close> joins all strings
  below a node. A tag object is always truthy, so \<^verbatim>\<open>if not section\<close> tests for
  \<^verbatim>\<open>None\<close> only.
\<close>

datatype node = NavigableString string | Tag string "(string \<times> string) list" "node list"

fun descendants :: "node \<Rightarrow> node list" where
  "descendants (NavigableString s) = []"
| "descendants (Tag nm attrs cs) = concat (map (\<lambda>c. c # descendants c) cs)"

fun has_name :: "string list \<Rightarrow> node \<Rightarrow> bool" where
  "has_name names (NavigableString s) = False"
| "has_name names (Tag nm attrs cs) = (nm \<in> set names)"

fun has_attrs :: "(string \<times> string) list \<Rightarrow> node \<Rightarrow> bool" where
  "has_attrs want (NavigableString s) = False"
| "has_attrs want (Tag nm attrs cs) = (\<forall>(a, v) \<in> set want. map_of attrs a = Some v)"

definition find_all :: "node \<Rightarrow> string list \<Rightarrow> node list" where
  "find_all n names = filter (has_name names) (descendants n)"

definition find_tag :: "node \<Rightarrow> string \<Rightarrow> (string \<times> string) list \<Rightarrow> node option" where
  "find_tag n nm want =
     (case filter (\<lambda>d. has_name [nm] d \<and> has_attrs want d) (descendants n) of
        [] \<Rightarrow> None
      | d # ds \<Rightarrow> Some d)"

fun get_text :: "node \<Rightarrow> string" where
  "get_text (NavigableString s) = s"
| "get_text (Tag nm attrs cs) = concat (map get_text cs)"

text \<open>
  \<^verbatim>\<open>str.strip()\<close> removes the whitespace at both ends. A character is a code point
  below 256 here; the whitespace among these is tab, line feed, vertical tab, form
  feed, carriage return, the four separators 28 to 31, the space, the next-line
  character 133 and the no-break space 160.
  \<^verbatim>\<open>replace(",", "")\<close> deletes every comma.
\<close>

definition is_space :: "char \<Rightarrow> bool" where
  "is_space c = (of_char c \<in> {9, 10, 11, 12, 13, 28, 29, 30, 31, 32, 133, 160 :: nat})"

definition strip :: "string \<Rightarrow> string" where
  "strip s = rev (dropWhile is_space (rev (dropWhile is_space s)))"

definition remove_commas :: "string \<Rightarrow> string" where
  "remove_commas s = filter (\<lambda>c. c \<noteq> CHR '','') s"

section \<open>Statement extraction: parse_table\<close>

text \<open>
  Python's built-in \<^verbatim>\<open>float(v)\<close> is a parameter \<open>pyfloat\<close>: \<open>None\<close> stands for
  the exception it raises on a string that is no number, which the bare
  \<^verbatim>\<open>except\<close> of the source turns into \<^verbatim>\<open>0.0\<close>.
  The inner loop of the source (lines 74 to 79) builds \<^verbatim>\<open>values\<close>, the outer loop
  (lines 66 to 81) stores one series per row into \<^verbatim>\<open>data\<close>.
\<close>

fun cell_values :: "(string \<Rightarrow> 'v option) \<Rightarrow> node list \<Rightarrow> 'v::zero list" where
  "cell_values pyfloat [] = []"
| "cell_values pyfloat (c # cs) =
     (let v = remove_commas (strip (get_text c))
      in (case pyfloat v of Some x \<Rightarrow> x | None \<Rightarrow> 0) # cell_values pyfloat cs)"

fun rows_loop ::
  "(string \<Rightarrow> 'v option) \<Rightarrow> string list \<Rightarrow> node list
    \<Rightarrow> (string, (string, 'v::zero) pydict) pydict \<Rightarrow> (string, (string, 'v) pydict) pydict" where
  "rows_loop pyfloat headers [] data = data"
| "rows_loop pyfloat headers (row # rows) data =
     (let cells = find_all row [''td'', ''th'']
      in if length cells < 2 then rows_loop pyfloat headers rows data
         else let key = strip (get_text (hd cells));
                  values = cell_values pyfloat (tl cells)
              in rows_loop pyfloat headers rows
                   (dict_set data key (dict_of (zip headers values))))"

definition parse_table ::
  "(string \<Rightarrow> 'v option) \<Rightarrow> node \<Rightarrow> string \<Rightarrow> (string, (string, 'v::zero) pydict) pydict" where
  "parse_table pyfloat soup section_id =
     (case find_tag soup ''section'' [(''id'', section_id)] of
        None \<Rightarrow> []
      | Some section \<Rightarrow>
          (case find_tag section ''table'' [] of
             None \<Rightarrow> []
           | Some table \<Rightarrow>
               (let rows = find_all table [''tr'']
                in if length rows < 2 then []
                   else let header_cells = find_all (hd rows) [''th'']
                        in if length header_cells < 2 then []
                           else let headers = tl (map (\<lambda>th. strip (get_text th)) header_cells)
                                in rows_loop pyfloat headers (tl rows) [])))"

section \<open>Input derivation: latest_value\<close>

definition latest_value :: "(string, 'v::zero) pydict \<Rightarrow> py_error + 'v" where
  "latest_value row =
     (if row = [] then Inr 0
      else if dict_contains row ''TTM'' then dict_getitem row ''TTM''
      else list_getitem (dict_values row) (- 1))"

section \<open>Numbers\<close>

text \<open>
  For the formulas of \<^verbatim>\<open>build_dcf_inputs\<close> and \<^verbatim>\<open>run_dcf\<close>, Python's \<^verbatim>\<open>float\<close> is
  modelled by the real numbers: every operation is exact, and \<^verbatim>\<open>round(x, n)\<close> rounds
  the exact decimal expansion to \<open>n\<close> places, a tie going to the even neighbour.
  Overflow, infinities and NaN have no counterpart in this model; the binary64 numbers
  themselves follow further down.
\<close>

definition round_half_even :: "real \<Rightarrow> int" where
  "round_half_even x =
     (let f = \<lfloor>x\<rfloor>; d = x - of_int f
      in if d < 1 / 2 then f
         else if 1 / 2 < d then f + 1
         else if even f then f else f + 1)"

definition py_round :: "real \<Rightarrow> nat \<Rightarrow> real" where
  "py_round x n = of_int (round_half_even (x * 10 ^ n)) / 10 ^ n"

section \<open>Input derivation: build_dcf_inputs\<close>


record dcf_inputs =
  revenue :: real
  ebit_margin :: real
  tax_rate :: real
  capex_pct :: real
  nwc_pct :: real
  net_debt :: real





section \<open>Projection and discounting: run_dcf\<close>

text \<open>
  The payload is the dict read at lines 198 to 207: the six derived inputs and the four
  assumptions of the caller.
\<close>

record payload = dcf_inputs +
  growth :: "real list"
  wacc :: real
  terminal_growth :: real
  shares :: real

record projection_result =
  enterprise_value :: real
  equity_value :: real
  fair_value_per_share :: real

text \<open>
  Lines 212 to 219: one FCFF per growth rate, revenue compounding. The local
  \<^verbatim>\<open>rev\<close> is \<open>rev'\<close> here.
\<close>

fun fcff_loop :: "payload \<Rightarrow> real \<Rightarrow> real list \<Rightarrow> real list" where
  "fcff_loop p rev' [] = []"
| "fcff_loop p rev' (g # gs) =
     (let rev' = rev' * (1 + g);
          ebit = rev' * ebit_margin p;
          nopat = ebit * (1 - tax_rate p);
          capex = rev' * capex_pct p;
          nwc = rev' * nwc_pct p;
          fcff = nopat - capex - nwc
      in fcff # fcff_loop p rev' gs)"

text \<open>Line 221: the terminal value; \<^verbatim>\<open>fcffs[-1]\<close> raises on an empty growth path.\<close>

definition terminal_value :: "payload \<Rightarrow> real list \<Rightarrow> py_error + real" where
  "terminal_value p fcffs =
     bind_err (list_getitem fcffs (- 1)) (\<lambda>last_fcff.
       if wacc p - terminal_growth p = 0 then Inl ZeroDivisionError
       else Inr ((last_fcff * (1 + terminal_growth p)) / (wacc p - terminal_growth p)))"

text \<open>Lines 223 to 225: the discounted sum, \<open>i\<close> counting from 0.\<close>

fun discount_loop :: "real \<Rightarrow> nat \<Rightarrow> real list \<Rightarrow> real \<Rightarrow> py_error + real" where
  "discount_loop w i [] ev = Inr ev"
| "discount_loop w i (f # fs) ev =
     (if (1 + w) ^ (i + 1) = 0 then Inl ZeroDivisionError
      else discount_loop w (i + 1) fs (ev + f / ((1 + w) ^ (i + 1))))"

text \<open>Lines 209 to 227: the local \<^verbatim>\<open>ev\<close> before it is rounded.\<close>

definition enterprise :: "payload \<Rightarrow> py_error + real" where
  "enterprise p =
     (let fcffs = fcff_loop p (revenue p) (growth p)
      in bind_err (terminal_value p fcffs) (\<lambda>tv.
         bind_err (discount_loop (wacc p) 0 fcffs 0) (\<lambda>ev.
           if (1 + wacc p) ^ length fcffs = 0 then Inl ZeroDivisionError
           else Inr (ev + tv / ((1 + wacc p) ^ length fcffs)))))"

definition run_dcf :: "payload \<Rightarrow> py_error + projection_result" where
  "run_dcf p =
     bind_err (enterprise p) (\<lambda>ev.
       let equity = ev - net_debt p
       in if shares p = 0 then Inl ZeroDivisionError
          else let fair_value = equity / shares p
               in Inr \<lparr>enterprise_value = py_round ev 2,
                       equity_value = py_round equity 2,
                       fair_value_per_share = py_round fair_value 2\<rparr>)"

section \<open>Binary64 numbers\<close>

text \<open>
  Where a claim is about the digits of a result, the numbers are Python's floats
  themselves, the binary64 values of IEEE 754. A finite value is the real number it
  denotes; the two zeros are one value (they compare equal, both are false, and
  dividing by either raises). \<open>fl\<close> rounds a real number to the nearest binary64
  value, a tie going to the even significand, with gradual underflow below
  \<open>pow2 (- 1022)\<close> and infinity from \<open>pow2 1024\<close> on. For a positive \<open>a\<close>, \<open>ilog2 a\<close> is
  the exponent \<open>e\<close> with \<open>pow2 e \<le> a < pow2 (e + 1)\<close>, and \<open>pow2 e\<close> is 2 to the power
  \<open>e\<close>.
\<close>

datatype f64 = Finite real | PosInf | NegInf | NaN

instantiation f64 :: zero
begin

definition zero_f64 :: f64 where
  "zero_f64 = Finite 0"

instance ..

end

definition ilog2 :: "real \<Rightarrow> int" where
  "ilog2 a = (if 1 \<le> a then bitlen \<lfloor>a\<rfloor> - 1 else - bitlen (\<lceil>1 / a\<rceil> - 1))"

definition pow2 :: "int \<Rightarrow> real" where
  "pow2 e = (if 0 \<le> e then 2 ^ nat e else 1 / 2 ^ nat (- e))"

definition fl :: "real \<Rightarrow> f64" where
  "fl x =
     (if x = 0 then Finite 0
      else let e = max (ilog2 \<bar>x\<bar>) (- 1022);
               u = pow2 (e - 52);
               m = round_half_even (\<bar>x\<bar> / u);
               r = of_int m * u
           in if pow2 1024 \<le> r then (if 0 < x then PosInf else NegInf)
              else Finite (if 0 < x then r else - r))"

text \<open>
  The operations that \<^verbatim>\<open>build_dcf_inputs\<close> applies to floats: \<^verbatim>\<open>x - y\<close>, \<^verbatim>\<open>x + y\<close>,
  \<^verbatim>\<open>x / y\<close> (which raises on a zero divisor), \<^verbatim>\<open>x > 0\<close>, the truth value of \<^verbatim>\<open>x\<close>
  (false for zero only) and \<^verbatim>\<open>round(x, n)\<close>. Each arithmetic result is the exact
  result rounded by \<open>fl\<close>. \<^verbatim>\<open>round(x, n)\<close> rounds the exact value of the double to
  \<open>n\<close> decimal places, a tie going to the even digit, and returns the double nearest
  to that decimal; an infinity or a NaN is returned as it is.
\<close>

fun f64_neg :: "f64 \<Rightarrow> f64" where
  "f64_neg (Finite a) = Finite (- a)"
| "f64_neg PosInf = NegInf"
| "f64_neg NegInf = PosInf"
| "f64_neg NaN = NaN"

fun f64_add :: "f64 \<Rightarrow> f64 \<Rightarrow> f64" where
  "f64_add (Finite a) (Finite b) = fl (a + b)"
| "f64_add NaN y = NaN"
| "f64_add x NaN = NaN"
| "f64_add PosInf NegInf = NaN"
| "f64_add NegInf PosInf = NaN"
| "f64_add PosInf y = PosInf"
| "f64_add NegInf y = NegInf"
| "f64_add (Finite a) y = y"

definition f64_sub :: "f64 \<Rightarrow> f64 \<Rightarrow> f64" where
  "f64_sub x y = f64_add x (f64_neg y)"

fun f64_quot :: "f64 \<Rightarrow> f64 \<Rightarrow> f64" where
  "f64_quot (Finite a) (Finite b) = fl (a / b)"
| "f64_quot NaN y = NaN"
| "f64_quot x NaN = NaN"
| "f64_quot PosInf (Finite b) = (if 0 < b then PosInf else NegInf)"
| "f64_quot NegInf (Finite b) = (if 0 < b then NegInf else PosInf)"
| "f64_quot (Finite a) y = Finite 0"
| "f64_quot x y = NaN"

definition py_truediv :: "f64 \<Rightarrow> f64 \<Rightarrow> py_error + f64" where
  "py_truediv x y = (if y = Finite 0 then Inl ZeroDivisionError else Inr (f64_quot x y))"

fun gt_zero :: "f64 \<Rightarrow> bool" where
  "gt_zero (Finite a) = (0 < a)"
| "gt_zero PosInf = True"
| "gt_zero NegInf = False"
| "gt_zero NaN = False"

definition truthy :: "f64 \<Rightarrow> bool" where
  "truthy x = (x \<noteq> Finite 0)"

fun py_round_f64 :: "f64 \<Rightarrow> nat \<Rightarrow> f64" where
  "py_round_f64 (Finite x) n = fl (of_int (round_half_even (x * 10 ^ n)) / 10 ^ n)"
| "py_round_f64 x n = x"

section \<open>Input derivation over binary64 numbers: build_dcf_inputs\<close>

text \<open>
  Lines 94 to 146 once more, on floats. The empty series gives the integer 0, which
  is the float zero here; the returned dict is the dict literal of lines 139 to 146.
\<close>

type_synonym statement_f64 = "(string, (string, f64) pydict) pydict"

definition capex_of_f64 :: "statement_f64 \<Rightarrow> f64 \<Rightarrow> py_error + f64" where
  "capex_of_f64 bs depreciation =
     (let fa = dict_get bs ''Fixed Assets +'' [];
          years = dict_keys fa
      in if length years \<ge> 2 then
           bind_err (list_getitem years (- 1)) (\<lambda>y1.
           bind_err (dict_getitem fa y1) (\<lambda>fa1.
           bind_err (list_getitem years (- 2)) (\<lambda>y2.
           bind_err (dict_getitem fa y2) (\<lambda>fa2.
             Inr (f64_add (f64_sub fa1 fa2) depreciation)))))
         else Inr depreciation)"

definition capex_pct_of_f64 :: "statement_f64 \<Rightarrow> f64 \<Rightarrow> f64 \<Rightarrow> py_error + f64" where
  "capex_pct_of_f64 bs depreciation revenue' =
     bind_err (capex_of_f64 bs depreciation) (\<lambda>capex.
       if truthy revenue' then py_truediv capex revenue' else Inr 0)"

definition nwc_pct_of_f64 :: "statement_f64 \<Rightarrow> f64 \<Rightarrow> py_error + f64" where
  "nwc_pct_of_f64 bs revenue' =
     (let oa = dict_get bs ''Other Assets +'' [];
          ol = dict_get bs ''Other Liabilities +'' [];
          oa_years = dict_keys oa;
          ol_years = dict_keys ol
      in if length oa_years \<ge> 2 \<and> length ol_years \<ge> 2 then
           bind_err (list_getitem oa_years (- 1)) (\<lambda>a1.
           bind_err (dict_getitem oa a1) (\<lambda>oa1.
           bind_err (list_getitem oa_years (- 2)) (\<lambda>a2.
           bind_err (dict_getitem oa a2) (\<lambda>oa2.
           bind_err (list_getitem ol_years (- 1)) (\<lambda>l1.
           bind_err (dict_getitem ol l1) (\<lambda>ol1.
           bind_err (list_getitem ol_years (- 2)) (\<lambda>l2.
           bind_err (dict_getitem ol l2) (\<lambda>ol2.
             let delta_nwc = f64_sub (f64_sub oa1 oa2) (f64_sub ol1 ol2)
             in if truthy revenue' then py_truediv delta_nwc revenue' else Inr 0))))))))
         else Inr 0)"

definition build_dcf_inputs_f64 ::
  "statement_f64 \<Rightarrow> statement_f64 \<Rightarrow> statement_f64 \<Rightarrow> py_error + (string, f64) pydict" where
  "build_dcf_inputs_f64 pl bs cf =
     bind_err (latest_value (dict_get pl ''Sales +'' [])) (\<lambda>revenue'.
     bind_err (latest_value (dict_get pl ''Operating Profit'' [])) (\<lambda>ebit.
     bind_err (latest_value (dict_get pl ''Depreciation'' [])) (\<lambda>depreciation.
     bind_err (latest_value (dict_get pl ''Profit before tax'' [])) (\<lambda>pbt.
     bind_err (latest_value (dict_get pl ''Net Profit +'' [])) (\<lambda>pat.
       let tax_paid = f64_sub pbt pat
       in
     bind_err (if gt_zero pbt then py_truediv tax_paid pbt else Inr (Finite 0.25)) (\<lambda>tax_rate'.
     bind_err (capex_pct_of_f64 bs depreciation revenue') (\<lambda>capex_pct'.
     bind_err (nwc_pct_of_f64 bs revenue') (\<lambda>nwc_pct'.
     bind_err (latest_value (dict_get bs ''Borrowings +'' [])) (\<lambda>borrowings.
     bind_err (latest_value (dict_get bs ''Investments'' [])) (\<lambda>cash.
       let net_debt' = f64_sub borrowings cash
       in
     bind_err (if truthy revenue' then py_truediv ebit revenue' else Inr 0) (\<lambda>ebit_margin'.
       Inr [(''revenue'', revenue'),
            (''ebit_margin'', py_round_f64 ebit_margin' 4),
            (''tax_rate'', py_round_f64 tax_rate' 4),
            (''capex_pct'', py_round_f64 capex_pct' 4),
            (''nwc_pct'', py_round_f64 nwc_pct' 4),
            (''net_debt'', net_debt')])))))))))))"

section \<open>The parts of parse_table, named\<close>

text \<open>
  The loop body of lines 67 to 81 reads three things from a row: its cells, its label
  and its series. \<open>table_of\<close> is lines 47 to 63: the period labels and the data rows
  that the loop runs over, or \<open>None\<close> where \<^verbatim>\<open>parse_table\<close> returns \<^verbatim>\<open>{}\<close>
  before the loop. Lemma \<open>parse_table_table_of\<close> below ties them to \<open>parse_table\<close>.
\<close>

definition row_cells :: "node \<Rightarrow> node list" where
  "row_cells row = find_all row [''td'', ''th'']"

definition row_key :: "node \<Rightarrow> string" where
  "row_key row = strip (get_text (hd (row_cells row)))"

definition row_values :: "(string \<Rightarrow> 'v option) \<Rightarrow> node \<Rightarrow> 'v::zero list" where
  "row_values pyfloat row = cell_values pyfloat (tl (row_cells row))"

definition row_series :: "(string \<Rightarrow> 'v option) \<Rightarrow> string list \<Rightarrow> node \<Rightarrow> (string, 'v::zero) pydict" where
  "row_series pyfloat headers row = dict_of (zip headers (row_values pyfloat row))"

definition row_entries ::
  "(string \<Rightarrow> 'v option) \<Rightarrow> string list \<Rightarrow> node list \<Rightarrow> (string \<times> (string, 'v::zero) pydict) list" where
  "row_entries pyfloat headers rows =
     map (\<lambda>r. (row_key r, row_series pyfloat headers r))
       (filter (\<lambda>r. 2 \<le> length (row_cells r)) rows)"

definition table_of :: "node \<Rightarrow> string \<Rightarrow> (string list \<times> node list) option" where
  "table_of soup section_id =
     (case find_tag soup ''section'' [(''id'', section_id)] of
        None \<Rightarrow> None
      | Some section \<Rightarrow>
          (case find_tag section ''table'' [] of
             None \<Rightarrow> None
           | Some table \<Rightarrow>
               (let rows = find_all table [''tr'']
                in if length rows < 2 then None
                   else let header_cells = find_all (hd rows) [''th'']
                        in if length header_cells < 2 then None
                           else Some (tl (map (\<lambda>th. strip (get_text th)) header_cells), tl rows))))"

section \<open>Example inputs\<close>

text \<open>
  \<open>sample_float\<close> agrees with \<^verbatim>\<open>float\<close> on the strings used below: it reads a
  non-empty string of decimal digits and rejects everything else.
\<close>

fun digits_value :: "string \<Rightarrow> int \<Rightarrow> int option" where
  "digits_value [] acc = Some acc"
| "digits_value (c # cs) acc =
     (let n = (of_char c :: int)
      in if 48 \<le> n \<and> n \<le> 57 then digits_value cs (10 * acc + (n - 48)) else None)"

definition sample_float :: "string \<Rightarrow> real option" where
  "sample_float s = (if s = [] then None else map_option of_int (digits_value s 0))"

definition th :: "string \<Rightarrow> node" where
  "th s = Tag ''th'' [] [NavigableString s]"

definition td :: "string \<Rightarrow> node" where
  "td s = Tag ''td'' [] [NavigableString s]"

definition tr :: "node list \<Rightarrow> node" where
  "tr cells = Tag ''tr'' [] cells"

definition page :: "string \<Rightarrow> node list \<Rightarrow> node" where
  "page section_id rows =
     Tag ''[document]'' [] [Tag ''section'' [(''id'', section_id)] [Tag ''table'' [] rows]]"

definition example_rows :: "node list" where
  "example_rows =
     [tr [td ''Sales +'', td ''1,300'', td ''1,500'', td ''1,600''],
      tr [td '' Expenses + '', td ''700'', td ''800'', td ''900'', td ''5''],
      tr [td ''Total''],
      tr [td ''Sales +'', td ''1,200'', td ''n/a'']]"

definition example_soup :: node where
  "example_soup =
     page ''profit-loss'' (tr [th '''', th ''Mar 2023'', th ''Mar 2024'', th ''TTM''] # example_rows)"

definition no_table_soup :: node where
  "no_table_soup =
     Tag ''[document]'' [] [Tag ''section'' [(''id'', ''cash-flow'')] [NavigableString ''No data'']]"

definition one_row_soup :: node where
  "one_row_soup = page ''cash-flow'' [tr [th '''', th ''Mar 2023'']]"

definition short_header_soup :: node where
  "short_header_soup = page ''cash-flow'' [tr [th ''''], tr [td ''Sales +'', td ''5'']]"

definition repeated_label_soup :: node where
  "repeated_label_soup =
     page ''balance-sheet''
       [tr [th '''', th ''Mar 2023'', th ''Mar 2023''],
        tr [td ''Fixed Assets +'', td ''10'', td ''20'']]"

definition example_payload :: payload where
  "example_payload =
     \<lparr>revenue = 1000, ebit_margin = 0.2, tax_rate = 0.25, capex_pct = 0, nwc_pct = 0,
      net_debt = 0, growth = [0], wacc = 0.10, terminal_growth = 0.03, shares = 100\<rparr>"




definition rounding_pl :: statement_f64 where
  "rounding_pl =
     [(''Profit before tax'', [(''Mar 2024'', Finite 90000), (''TTM'', Finite 100000)]),
      (''Net Profit +'', [(''Mar 2024'', Finite 80000), (''TTM'', Finite 87655)])]"

definition loss_pl :: statement_f64 where
  "loss_pl =
     [(''Profit before tax'', [(''TTM'', Finite (- 500))]),
      (''Net Profit +'', [(''TTM'', Finite (- 400))])]"

section \<open>Dictionaries and lists\<close>

lemma map_of_mid:
  "distinct (map fst (xs @ (k, v) # ys)) \<Longrightarrow> map_of (xs @ (k, v) # ys) k = Some v"
  by (induction xs) auto

lemma list_getitem_last: "xs \<noteq> [] \<Longrightarrow> list_getitem xs (- 1) = Inr (last xs)"
proof -
  assume ne: "xs \<noteq> []"
  then have "nat (int (length xs) + - 1) = length xs - 1"
    by (cases xs) simp_all
  with ne show ?thesis
    by (simp add: list_getitem_def Let_def last_conv_nth)
qed

lemma map_of_dict_set: "map_of (dict_set d k v) = (map_of d)(k \<mapsto> v)"
  by (induction d k v rule: dict_set.induct) (auto simp: fun_eq_iff)

lemma keys_dict_set:
  "map fst (dict_set d k v) = (if k \<in> fst ` set d then map fst d else map fst d @ [k])"
  by (induction d k v rule: dict_set.induct) auto

lemma wf_dict_set: "wf_dict d \<Longrightarrow> wf_dict (dict_set d k v)"
  by (simp add: wf_dict_def keys_dict_set)

lemma map_of_dict_update: "map_of (dict_update d ps) = map_of d ++ map_of (rev ps)"
proof (induction d ps rule: dict_update.induct)
  case (1 d)
  show ?case by simp
next
  case (2 d k v ps)
  have "map_of (dict_update d ((k, v) # ps)) = map_of (dict_set d k v) ++ map_of (rev ps)"
    using 2 by simp
  also have "map_of (dict_set d k v) = (map_of d)(k \<mapsto> v)"
    by (rule map_of_dict_set)
  also have "(map_of d)(k \<mapsto> v) ++ map_of (rev ps) = map_of d ++ ([k \<mapsto> v] ++ map_of (rev ps))"
    by (simp add: map_add_assoc [symmetric])
  also have "[k \<mapsto> v] ++ map_of (rev ps) = map_of (rev ((k, v) # ps))"
    by (simp add: map_of_append)
  finally show ?case .
qed

lemma wf_dict_update: "wf_dict d \<Longrightarrow> wf_dict (dict_update d ps)"
  by (induction d ps rule: dict_update.induct) (simp_all add: wf_dict_set)

lemma keys_dict_update: "fst ` set (dict_update d ps) = fst ` set d \<union> fst ` set ps"
proof -
  have "dom (map_of (dict_update d ps)) = dom (map_of d) \<union> dom (map_of ps)"
    by (simp add: map_of_dict_update dom_map_of_conv_image_fst Un_commute)
  then show ?thesis
    by (simp add: dom_map_of_conv_image_fst)
qed

lemma wf_dict_of: "wf_dict (dict_of ps)"
proof -
  have "wf_dict ([] :: ('a \<times> 'b) list)"
    by (simp add: wf_dict_def)
  then show ?thesis
    unfolding dict_of_def by (rule wf_dict_update)
qed

lemma map_of_dict_of: "map_of (dict_of ps) = map_of (rev ps)"
  by (simp add: dict_of_def map_of_dict_update)

lemma keys_dict_of: "set (dict_keys (dict_of ps)) = fst ` set ps"
  by (simp add: dict_of_def dict_keys_def keys_dict_update)

lemma length_dict_of: "length (dict_of ps) = card (fst ` set ps)"
proof -
  have "distinct (map fst (dict_of ps))"
    using wf_dict_of [of ps] by (simp add: wf_dict_def)
  then have "card (set (map fst (dict_of ps))) = length (map fst (dict_of ps))"
    by (rule distinct_card)
  then show ?thesis
    using keys_dict_of [of ps] by (simp add: dict_keys_def)
qed

lemma dict_set_distinct_snoc:
  "k \<notin> fst ` set d \<Longrightarrow> dict_set d k v = d @ [(k, v)]"
  by (induction d k v rule: dict_set.induct) auto

lemma dict_update_distinct:
  "distinct (map fst ps) \<Longrightarrow> fst ` set d \<inter> fst ` set ps = {} \<Longrightarrow> dict_update d ps = d @ ps"
proof (induction d ps rule: dict_update.induct)
  case (1 d)
  show ?case by simp
next
  case (2 d k v ps)
  from 2(3) have k: "k \<notin> fst ` set d" by auto
  then have s: "dict_set d k v = d @ [(k, v)]" by (rule dict_set_distinct_snoc)
  from 2(2,3) have "fst ` set (d @ [(k, v)]) \<inter> fst ` set ps = {}" by auto
  with 2 s show ?case by simp
qed

lemma dict_of_distinct: "distinct (map fst ps) \<Longrightarrow> dict_of ps = ps"
  by (simp add: dict_of_def dict_update_distinct)

lemma rows_loop_entries:
  "rows_loop pyfloat headers rows data = dict_update data (row_entries pyfloat headers rows)"
proof (induction rows arbitrary: data)
  case Nil
  show ?case by (simp add: row_entries_def)
next
  case (Cons r rows)
  show ?case
    using Cons [of data]
      Cons [of "dict_set data (row_key r) (row_series pyfloat headers r)"]
    by (simp add: row_entries_def Let_def row_cells_def row_key_def row_series_def
        row_values_def not_less)
qed

lemma parse_table_table_of:
  "parse_table pyfloat soup section_id =
     (case table_of soup section_id of
        None \<Rightarrow> []
      | Some (headers, rows) \<Rightarrow> dict_update [] (row_entries pyfloat headers rows))"
  by (simp add: parse_table_def table_of_def Let_def rows_loop_entries
      split: option.splits)

lemma map_of_last_entry:
  "k \<notin> fst ` set post \<Longrightarrow> map_of (rev (pre @ (k, v) # post)) k = Some v"
proof -
  assume "k \<notin> fst ` set post"
  then have "map_of (rev post) k = None"
    by (simp add: map_of_eq_None_iff)
  then show ?thesis
    by (simp add: map_of_append map_add_def)
qed

lemma parse_table_last_row:
  assumes t: "table_of soup section_id = Some (headers, pre @ r # post)"
    and r: "2 \<le> length (row_cells r)"
    and p: "\<forall>q \<in> set post. 2 \<le> length (row_cells q) \<longrightarrow> row_key q \<noteq> row_key r"
  shows "map_of (parse_table pyfloat soup section_id) (row_key r)
           = Some (row_series pyfloat headers r)"
proof -
  have e: "row_entries pyfloat headers (pre @ r # post) =
      row_entries pyfloat headers pre @ (row_key r, row_series pyfloat headers r)
        # row_entries pyfloat headers post"
    using r by (simp add: row_entries_def)
  have "row_key r \<notin> fst ` set (row_entries pyfloat headers post)"
    using p by (auto simp: row_entries_def)
  then have m: "map_of (rev (row_entries pyfloat headers (pre @ r # post))) (row_key r)
      = Some (row_series pyfloat headers r)"
    unfolding e by (rule map_of_last_entry)
  have "parse_table pyfloat soup section_id
      = dict_update [] (row_entries pyfloat headers (pre @ r # post))"
    using t by (simp add: parse_table_table_of)
  then show ?thesis
    using m by (simp only: map_of_dict_update map_of.simps(1) empty_map_add)
qed

lemma length_filter_mono:
  "(\<And>x. P x \<Longrightarrow> Q x) \<Longrightarrow> length (filter P xs) \<le> length (filter Q xs)"
  by (induction xs) auto

lemma has_name_mono: "set ns \<subseteq> set ms \<Longrightarrow> has_name ns d \<Longrightarrow> has_name ms d"
  by (cases d) auto

lemma length_find_all_th:
  "length (find_all n [''th'']) \<le> length (find_all n [''td'', ''th''])"
  unfolding find_all_def
  by (rule length_filter_mono) (erule has_name_mono [rotated], simp)

lemma map_of_rev_nth:
  assumes len: "i < length zs"
    and later: "\<forall>j. i < j \<and> j < length zs \<longrightarrow> fst (zs ! j) \<noteq> fst (zs ! i)"
  shows "map_of (rev zs) (fst (zs ! i)) = Some (snd (zs ! i))"
proof -
  have split: "zs = take i zs @ (fst (zs ! i), snd (zs ! i)) # drop (Suc i) zs"
    using id_take_nth_drop [OF len] by simp
  have "fst (zs ! i) \<notin> fst ` set (drop (Suc i) zs)"
  proof
    assume "fst (zs ! i) \<in> fst ` set (drop (Suc i) zs)"
    then obtain p where p: "p \<in> set (drop (Suc i) zs)" "fst p = fst (zs ! i)" by auto
    then obtain k where k: "k < length (drop (Suc i) zs)" "drop (Suc i) zs ! k = p"
      by (auto simp: in_set_conv_nth)
    from k(1) have lt: "Suc i + k < length zs" by simp
    then have "zs ! (Suc i + k) = p" using k(2) by simp
    with p have "fst (zs ! (Suc i + k)) = fst (zs ! i)" by simp
    moreover have "i < Suc i + k" by simp
    ultimately show False using later lt by blast
  qed
  then have "map_of (rev (take i zs @ (fst (zs ! i), snd (zs ! i)) # drop (Suc i) zs)) (fst (zs ! i))
      = Some (snd (zs ! i))"
    by (rule map_of_last_entry)
  with split show ?thesis by simp
qed

lemma dict_of_zip_lookup:
  assumes i: "i < length hs" "i < length vs"
    and later: "\<forall>j. i < j \<and> j < length hs \<and> j < length vs \<longrightarrow> hs ! j \<noteq> hs ! i"
  shows "map_of (dict_of (zip hs vs)) (hs ! i) = Some (vs ! i)"
proof -
  have "map_of (rev (zip hs vs)) (fst (zip hs vs ! i)) = Some (snd (zip hs vs ! i))"
  proof (rule map_of_rev_nth)
    show "i < length (zip hs vs)" using i by simp
    show "\<forall>j. i < j \<and> j < length (zip hs vs) \<longrightarrow> fst (zip hs vs ! j) \<noteq> fst (zip hs vs ! i)"
      using i later by simp
  qed
  then show ?thesis
    using i by (simp add: map_of_dict_of)
qed

lemma length_cell_values: "length (cell_values pyfloat cs) = length cs"
  by (induction cs) (simp_all add: Let_def)

lemma nth_cell_values:
  "i < length cs \<Longrightarrow>
   cell_values pyfloat cs ! i =
     (case pyfloat (remove_commas (strip (get_text (cs ! i)))) of Some x \<Rightarrow> x | None \<Rightarrow> 0)"
proof (induction cs arbitrary: i)
  case Nil
  then show ?case by simp
next
  case (Cons c cs)
  then show ?case by (cases i) (simp_all add: Let_def)
qed

lemma zip_take_min:
  "zip xs ys = zip (take (min (length xs) (length ys)) xs) (take (min (length xs) (length ys)) ys)"
proof -
  have "zip xs ys = take (min (length xs) (length ys)) (zip xs ys)" by simp
  then show ?thesis by (simp only: take_zip)
qed

lemma fst_set_zip_take:
  "fst ` set (zip xs ys) = set (take (min (length xs) (length ys)) xs)"
proof -
  have "map fst (zip xs ys) = take (min (length xs) (length ys)) xs"
    by (simp add: map_fst_zip_take)
  then have "set (map fst (zip xs ys)) = set (take (min (length xs) (length ys)) xs)"
    by simp
  then show ?thesis by simp
qed

section \<open>latest_value\<close>

text \<open>
  C2. \<^verbatim>\<open>latest_value\<close> returns 0 on the empty series; on a series with the key
  \<^verbatim>\<open>"TTM"\<close> it returns the value stored under that key, wherever the key stands;
  on any other non-empty series it returns the value of the last period in insertion
  order. It never raises.
\<close>

theorem latest_value_cases:
  "latest_value ([] :: (string, 'v::zero) pydict) = Inr 0 \<and>
   (wf_dict (xs @ (''TTM'', v) # ys) \<longrightarrow>
      latest_value (xs @ (''TTM'', v) # ys) = Inr (v :: 'v)) \<and>
   (row \<noteq> [] \<and> \<not> dict_contains row ''TTM'' \<longrightarrow>
      latest_value row = Inr (snd (last row) :: 'v))"
proof (intro conjI impI)
  show "latest_value ([] :: (string, 'v) pydict) = Inr 0"
    by (simp add: latest_value_def)
next
  assume "wf_dict (xs @ (''TTM'', v) # ys)"
  then have "map_of (xs @ (''TTM'', v) # ys) ''TTM'' = Some v"
    unfolding wf_dict_def by (rule map_of_mid)
  then show "latest_value (xs @ (''TTM'', v) # ys) = Inr v"
    by (simp add: latest_value_def dict_contains_def dict_keys_def dict_getitem_def)
next
  assume a: "row \<noteq> [] \<and> \<not> dict_contains row ''TTM''"
  then have "list_getitem (dict_values row) (- 1) = Inr (snd (last row))"
    by (simp add: list_getitem_last dict_values_def last_map)
  with a show "latest_value row = Inr (snd (last row))"
    by (simp add: latest_value_def)
qed

theorem latest_value_cases_witness:
  "wf_dict [(''Mar 2023'', 1 :: real), (''TTM'', 7), (''Mar 2024'', 3)] \<and>
   latest_value [(''Mar 2023'', 1 :: real), (''TTM'', 7), (''Mar 2024'', 3)] = Inr 7 \<and>
   [(''Mar 2023'', 1 :: real), (''Mar 2024'', 3)] \<noteq> [] \<and>
   \<not> dict_contains [(''Mar 2023'', 1 :: real), (''Mar 2024'', 3)] ''TTM'' \<and>
   latest_value [(''Mar 2023'', 1 :: real), (''Mar 2024'', 3)] = Inr 3"
  using latest_value_cases [of "[(''Mar 2023'', 1 :: real)]" 7 "[(''Mar 2024'', 3)]"
      "[(''Mar 2023'', 1), (''Mar 2024'', 3)]"]
  by (simp add: wf_dict_def dict_contains_def dict_keys_def)

section \<open>run_dcf on the reference scenario\<close>

text \<open>
  C1. With revenue 1000, one period of 0% growth, EBIT margin 0.2, tax rate 0.25, no
  capex, no working capital, WACC 0.10, terminal growth 0.03, no net debt and 100
  shares, the forecast is the single FCFF 150, the terminal value is 150 * 1.03 / 0.07,
  and \<^verbatim>\<open>run_dcf\<close> returns enterprise value 2142.86, equity value 2142.86 and fair
  value per share 21.43.
\<close>

theorem run_dcf_example:
  "fcff_loop example_payload (revenue example_payload) (growth example_payload) = [150] \<and>
   terminal_value example_payload [150] = Inr (150 * 1.03 / 0.07) \<and>
   run_dcf example_payload =
     Inr \<lparr>enterprise_value = 2142.86, equity_value = 2142.86, fair_value_per_share = 21.43\<rparr>"
  by (simp add: example_payload_def run_dcf_def enterprise_def terminal_value_def bind_err_def
      list_getitem_def py_round_def round_half_even_def Let_def)

section \<open>parse_table: early returns\<close>

text \<open>
  C3. \<^verbatim>\<open>parse_table\<close> returns the empty table, and raises nothing, when the document
  has no section with the given id, when the section holds no table, when the first
  table of the section has fewer than 2 rows, and when the header row has fewer than 2
  cells.
\<close>

theorem parse_table_empty_cases:
  "(find_tag soup ''section'' [(''id'', section_id)] = None \<longrightarrow>
      parse_table pyfloat soup section_id = []) \<and>
   (find_tag soup ''section'' [(''id'', section_id)] = Some section \<and>
    find_tag section ''table'' [] = None \<longrightarrow>
      parse_table pyfloat soup section_id = []) \<and>
   (find_tag soup ''section'' [(''id'', section_id)] = Some section \<and>
    find_tag section ''table'' [] = Some table \<and>
    length (find_all table [''tr'']) < 2 \<longrightarrow>
      parse_table pyfloat soup section_id = []) \<and>
   (find_tag soup ''section'' [(''id'', section_id)] = Some section \<and>
    find_tag section ''table'' [] = Some table \<and>
    length (find_all (hd (find_all table [''tr''])) [''td'', ''th'']) < 2 \<longrightarrow>
      parse_table pyfloat soup section_id = [])"
proof -
  have "length (find_all (hd (find_all table [''tr''])) [''td'', ''th'']) < 2 \<Longrightarrow>
      length (find_all (hd (find_all table [''tr''])) [''th'']) < 2"
    using length_find_all_th [of "hd (find_all table [''tr''])"] by simp
  then show ?thesis
    by (auto simp: parse_table_def Let_def)
qed

theorem parse_table_empty_cases_witness:
  "find_tag example_soup ''section'' [(''id'', ''cash-flow'')] = None \<and>
   parse_table sample_float example_soup ''cash-flow'' = [] \<and>
   find_tag no_table_soup ''section'' [(''id'', ''cash-flow'')]
     = Some (Tag ''section'' [(''id'', ''cash-flow'')] [NavigableString ''No data'']) \<and>
   find_tag (Tag ''section'' [(''id'', ''cash-flow'')] [NavigableString ''No data'']) ''table'' [] = None \<and>
   parse_table sample_float no_table_soup ''cash-flow'' = [] \<and>
   length (find_all (Tag ''table'' [] [tr [th '''', th ''Mar 2023'']]) [''tr'']) < 2 \<and>
   parse_table sample_float one_row_soup ''cash-flow'' = [] \<and>
   length (find_all (hd (find_all (Tag ''table'' [] [tr [th ''''], tr [td ''Sales +'', td ''5'']])
     [''tr''])) [''td'', ''th'']) < 2 \<and>
   parse_table sample_float short_header_soup ''cash-flow'' = []"
proof -
  have a: "find_tag example_soup ''section'' [(''id'', ''cash-flow'')] = None"
    by code_simp
  have b1: "find_tag no_table_soup ''section'' [(''id'', ''cash-flow'')]
     = Some (Tag ''section'' [(''id'', ''cash-flow'')] [NavigableString ''No data''])"
    by code_simp
  have b2: "find_tag (Tag ''section'' [(''id'', ''cash-flow'')] [NavigableString ''No data'']) ''table'' [] = None"
    by code_simp
  have c1: "find_tag one_row_soup ''section'' [(''id'', ''cash-flow'')]
     = Some (Tag ''section'' [(''id'', ''cash-flow'')] [Tag ''table'' [] [tr [th '''', th ''Mar 2023'']]])"
    by code_simp
  have c2: "find_tag (Tag ''section'' [(''id'', ''cash-flow'')] [Tag ''table'' [] [tr [th '''', th ''Mar 2023'']]]) ''table'' []
     = Some (Tag ''table'' [] [tr [th '''', th ''Mar 2023'']])"
    by code_simp
  have c3: "length (find_all (Tag ''table'' [] [tr [th '''', th ''Mar 2023'']]) [''tr'']) < 2"
    by code_simp
  have d1: "find_tag short_header_soup ''section'' [(''id'', ''cash-flow'')]
     = Some (Tag ''section'' [(''id'', ''cash-flow'')]
         [Tag ''table'' [] [tr [th ''''], tr [td ''Sales +'', td ''5'']]])"
    by code_simp
  have d2: "find_tag (Tag ''section'' [(''id'', ''cash-flow'')]
         [Tag ''table'' [] [tr [th ''''], tr [td ''Sales +'', td ''5'']]]) ''table'' []
     = Some (Tag ''table'' [] [tr [th ''''], tr [td ''Sales +'', td ''5'']])"
    by code_simp
  have d3: "length (find_all (hd (find_all (Tag ''table'' [] [tr [th ''''], tr [td ''Sales +'', td ''5'']])
     [''tr''])) [''td'', ''th'']) < 2"
    by code_simp
  note t = parse_table_empty_cases [where pyfloat = sample_float]
  have "parse_table sample_float example_soup ''cash-flow'' = []"
    using t [of example_soup "''cash-flow''"] a by blast
  moreover have "parse_table sample_float no_table_soup ''cash-flow'' = []"
    using t [of no_table_soup "''cash-flow''"] b1 b2 by blast
  moreover have "parse_table sample_float one_row_soup ''cash-flow'' = []"
    using t [of one_row_soup "''cash-flow''"] c1 c2 c3 by blast
  moreover have "parse_table sample_float short_header_soup ''cash-flow'' = []"
    using t [of short_header_soup "''cash-flow''"] d1 d2 d3 by blast
  ultimately show ?thesis
    using a b1 b2 c3 d3 by simp
qed

section \<open>parse_table: the cells of a row\<close>

lemma length_row_values: "length (row_values pyfloat r) = length (row_cells r) - 1"
  by (simp add: row_values_def length_cell_values)

lemma nth_row_values:
  "Suc i < length (row_cells r) \<Longrightarrow>
   row_values pyfloat r ! i =
     (case pyfloat (remove_commas (strip (get_text (row_cells r ! Suc i)))) of
        Some x \<Rightarrow> x | None \<Rightarrow> 0)"
  by (simp add: row_values_def nth_cell_values nth_tl)

text \<open>
  C4. Every value cell of a row yields exactly one number: the commas are deleted from
  its stripped text before \<^verbatim>\<open>float\<close> reads it, and a text that \<^verbatim>\<open>float\<close> rejects
  yields 0 instead of an exception. The string handed to \<^verbatim>\<open>float\<close> holds no comma.
  In the extracted table, the number stored for a row and a period label is the one
  read from the cell of that column (for the last row with that line-item label and
  the last paired column with that period label).
\<close>

theorem cell_values_total:
  "length (cell_values pyfloat cs) = length cs \<and>
   (i < length cs \<and> pyfloat (remove_commas (strip (get_text (cs ! i)))) = None \<longrightarrow>
      cell_values pyfloat cs ! i = 0) \<and>
   (i < length cs \<and> pyfloat (remove_commas (strip (get_text (cs ! i)))) = Some x \<longrightarrow>
      cell_values pyfloat cs ! i = x) \<and>
   CHR '','' \<notin> set (remove_commas s) \<and>
   remove_commas (s1 @ CHR '','' # s2) = remove_commas (s1 @ s2) \<and>
   (table_of soup section_id = Some (headers, pre @ r # post) \<and>
    2 \<le> length (row_cells r) \<and>
    (\<forall>q \<in> set post. 2 \<le> length (row_cells q) \<longrightarrow> row_key q \<noteq> row_key r) \<and>
    k < length headers \<and> Suc k < length (row_cells r) \<and>
    (\<forall>j. k < j \<and> j < length headers \<and> Suc j < length (row_cells r) \<longrightarrow> headers ! j \<noteq> headers ! k)
    \<longrightarrow>
      (\<exists>ser. map_of (parse_table pyfloat soup section_id) (row_key r) = Some ser \<and>
         map_of ser (headers ! k) =
           Some (case pyfloat (remove_commas (strip (get_text (row_cells r ! Suc k)))) of
                   Some x \<Rightarrow> x | None \<Rightarrow> 0)))"
proof (intro conjI impI)
  show "length (cell_values pyfloat cs) = length cs"
    by (rule length_cell_values)
  show "cell_values pyfloat cs ! i = 0"
    if "i < length cs \<and> pyfloat (remove_commas (strip (get_text (cs ! i)))) = None"
    using that by (simp add: nth_cell_values)
  show "cell_values pyfloat cs ! i = x"
    if "i < length cs \<and> pyfloat (remove_commas (strip (get_text (cs ! i)))) = Some x"
    using that by (simp add: nth_cell_values)
  show "CHR '','' \<notin> set (remove_commas s)"
    by (simp add: remove_commas_def)
  show "remove_commas (s1 @ CHR '','' # s2) = remove_commas (s1 @ s2)"
    by (simp add: remove_commas_def)
next
  assume h: "table_of soup section_id = Some (headers, pre @ r # post) \<and>
    2 \<le> length (row_cells r) \<and>
    (\<forall>q \<in> set post. 2 \<le> length (row_cells q) \<longrightarrow> row_key q \<noteq> row_key r) \<and>
    k < length headers \<and> Suc k < length (row_cells r) \<and>
    (\<forall>j. k < j \<and> j < length headers \<and> Suc j < length (row_cells r) \<longrightarrow> headers ! j \<noteq> headers ! k)"
  then have t: "table_of soup section_id = Some (headers, pre @ r # post)"
    and r: "2 \<le> length (row_cells r)"
    and p: "\<forall>q \<in> set post. 2 \<le> length (row_cells q) \<longrightarrow> row_key q \<noteq> row_key r"
    and k: "k < length headers" "Suc k < length (row_cells r)"
    and l: "\<forall>j. k < j \<and> j < length headers \<and> Suc j < length (row_cells r) \<longrightarrow> headers ! j \<noteq> headers ! k"
    by blast+
  have row: "map_of (parse_table pyfloat soup section_id) (row_key r)
      = Some (row_series pyfloat headers r)"
    using t r p by (rule parse_table_last_row)
  have "map_of (dict_of (zip headers (row_values pyfloat r))) (headers ! k)
      = Some (row_values pyfloat r ! k)"
  proof (rule dict_of_zip_lookup)
    show "k < length headers" by (rule k(1))
    show "k < length (row_values pyfloat r)" using k(2) by (simp add: length_row_values)
    show "\<forall>j. k < j \<and> j < length headers \<and> j < length (row_values pyfloat r)
        \<longrightarrow> headers ! j \<noteq> headers ! k"
    proof (intro allI impI)
      fix j
      assume j: "k < j \<and> j < length headers \<and> j < length (row_values pyfloat r)"
      then have "j < length (row_cells r) - 1" by (simp add: length_row_values)
      then have "Suc j < length (row_cells r)" by arith
      with j l show "headers ! j \<noteq> headers ! k" by blast
    qed
  qed
  then have "map_of (row_series pyfloat headers r) (headers ! k) =
      Some (case pyfloat (remove_commas (strip (get_text (row_cells r ! Suc k)))) of
              Some x \<Rightarrow> x | None \<Rightarrow> 0)"
    using k(2) by (simp add: row_series_def nth_row_values)
  with row show "\<exists>ser. map_of (parse_table pyfloat soup section_id) (row_key r) = Some ser \<and>
         map_of ser (headers ! k) =
           Some (case pyfloat (remove_commas (strip (get_text (row_cells r ! Suc k)))) of
                   Some x \<Rightarrow> x | None \<Rightarrow> 0)"
    by blast
qed

theorem cell_values_total_witness:
  "sample_float (remove_commas (strip (get_text (td ''1,200'')))) = Some 1200 \<and>
   sample_float (remove_commas (strip (get_text (td ''n/a'')))) = None \<and>
   cell_values sample_float [td ''1,200'', td ''n/a''] ! 0 = 1200 \<and>
   cell_values sample_float [td ''1,200'', td ''n/a''] ! 1 = 0 \<and>
   (\<exists>ser. map_of (parse_table sample_float example_soup ''profit-loss'') ''Sales +'' = Some ser \<and>
      map_of ser ''Mar 2024'' = Some 0)"
proof -
  let ?r = "tr [td ''Sales +'', td ''1,200'', td ''n/a'']"
  let ?hs = "[''Mar 2023'', ''Mar 2024'', ''TTM'']"
  have p1: "sample_float (remove_commas (strip (get_text (td ''1,200'')))) = Some 1200"
    by code_simp
  have p2: "sample_float (remove_commas (strip (get_text (td ''n/a'')))) = None"
    by code_simp
  have t: "table_of example_soup ''profit-loss'' = Some (?hs, take 3 example_rows @ ?r # [])"
    by code_simp
  have c: "row_cells ?r = [td ''Sales +'', td ''1,200'', td ''n/a'']"
    by code_simp
  have k: "row_key ?r = ''Sales +''"
    by code_simp
  have v0: "cell_values sample_float [td ''1,200'', td ''n/a''] ! 0 = 1200"
    using cell_values_total [of sample_float "[td ''1,200'', td ''n/a'']" 0 1200] p1 by simp
  have v1: "cell_values sample_float [td ''1,200'', td ''n/a''] ! 1 = 0"
    using cell_values_total [of sample_float "[td ''1,200'', td ''n/a'']" 1] p2 by simp
  have "\<exists>ser. map_of (parse_table sample_float example_soup ''profit-loss'') (row_key ?r) = Some ser \<and>
      map_of ser (?hs ! 1) =
        Some (case sample_float (remove_commas (strip (get_text (row_cells ?r ! Suc 1)))) of
                Some x \<Rightarrow> x | None \<Rightarrow> 0)"
    using cell_values_total [where pyfloat = sample_float and soup = example_soup
        and section_id = "''profit-loss''" and headers = ?hs and pre = "take 3 example_rows"
        and r = ?r and post = "[]" and k = 1] t
    by (simp add: c)
  then have "\<exists>ser. map_of (parse_table sample_float example_soup ''profit-loss'') ''Sales +'' = Some ser \<and>
      map_of ser ''Mar 2024'' = Some 0"
    using p2 by (simp add: k c)
  with p1 p2 v0 v1 show ?thesis by blast
qed

section \<open>parse_table: pairing labels with values\<close>

text \<open>
  C5. A row has one value per cell after the first. Labels and values are paired by
  position up to the shorter of the two lengths: the pairing has that length, its
  \<open>i\<close>-th pair is the \<open>i\<close>-th label with the \<open>i\<close>-th value, the series is built from
  the two prefixes of that length alone, its keys are the labels of that prefix, and
  when these labels are distinct the series is the list of these pairs. This series is
  what the table holds for the row's label (for the last row with that label).
\<close>

theorem row_series_pairing:
  "length (row_values pyfloat r) = length (row_cells r) - 1 \<and>
   length (zip headers (row_values pyfloat r))
     = min (length headers) (length (row_values pyfloat r)) \<and>
   (i < min (length headers) (length (row_values pyfloat r)) \<longrightarrow>
      zip headers (row_values pyfloat r) ! i = (headers ! i, row_values pyfloat r ! i)) \<and>
   row_series pyfloat headers r
     = dict_of (zip (take (min (length headers) (length (row_values pyfloat r))) headers)
                    (take (min (length headers) (length (row_values pyfloat r))) (row_values pyfloat r))) \<and>
   set (dict_keys (row_series pyfloat headers r))
     = set (take (min (length headers) (length (row_values pyfloat r))) headers) \<and>
   (distinct (take (min (length headers) (length (row_values pyfloat r))) headers) \<longrightarrow>
      row_series pyfloat headers r
        = zip (take (min (length headers) (length (row_values pyfloat r))) headers)
              (take (min (length headers) (length (row_values pyfloat r))) (row_values pyfloat r))) \<and>
   (table_of soup section_id = Some (headers, pre @ r # post) \<and>
    2 \<le> length (row_cells r) \<and>
    (\<forall>q \<in> set post. 2 \<le> length (row_cells q) \<longrightarrow> row_key q \<noteq> row_key r) \<longrightarrow>
      map_of (parse_table pyfloat soup section_id) (row_key r)
        = Some (row_series pyfloat headers r))"
proof (intro conjI impI)
  let ?vs = "row_values pyfloat r"
  let ?n = "min (length headers) (length ?vs)"
  show "length ?vs = length (row_cells r) - 1"
    by (rule length_row_values)
  show "length (zip headers ?vs) = ?n"
    by simp
  show "zip headers ?vs ! i = (headers ! i, ?vs ! i)" if "i < ?n"
    using that by simp
  show eq: "row_series pyfloat headers r = dict_of (zip (take ?n headers) (take ?n ?vs))"
    unfolding row_series_def using zip_take_min [of headers ?vs] by simp
  show "set (dict_keys (row_series pyfloat headers r)) = set (take ?n headers)"
    unfolding row_series_def by (simp only: keys_dict_of fst_set_zip_take)
  show "row_series pyfloat headers r = zip (take ?n headers) (take ?n ?vs)"
    if d: "distinct (take ?n headers)"
  proof -
    have "map fst (zip (take ?n headers) (take ?n ?vs)) = take ?n headers"
      by (simp add: map_fst_zip_take)
    with d have "distinct (map fst (zip (take ?n headers) (take ?n ?vs)))"
      by simp
    then show ?thesis
      unfolding eq by (rule dict_of_distinct)
  qed
next
  assume h: "table_of soup section_id = Some (headers, pre @ r # post) \<and>
    2 \<le> length (row_cells r) \<and>
    (\<forall>q \<in> set post. 2 \<le> length (row_cells q) \<longrightarrow> row_key q \<noteq> row_key r)"
  then have t: "table_of soup section_id = Some (headers, pre @ r # post)"
    and r: "2 \<le> length (row_cells r)"
    and p: "\<forall>q \<in> set post. 2 \<le> length (row_cells q) \<longrightarrow> row_key q \<noteq> row_key r"
    by blast+
  show "map_of (parse_table pyfloat soup section_id) (row_key r)
      = Some (row_series pyfloat headers r)"
    using t r p by (rule parse_table_last_row)
qed

theorem row_series_pairing_witness:
  "min (length [''Mar 2023'', ''Mar 2024'', ''TTM''])
       (length (row_values sample_float (tr [td ''Sales +'', td ''1,200'', td ''n/a'']))) = 2 \<and>
   min (length [''Mar 2023'', ''Mar 2024'', ''TTM''])
       (length (row_values sample_float
          (tr [td '' Expenses + '', td ''700'', td ''800'', td ''900'', td ''5'']))) = 3 \<and>
   map_of (parse_table sample_float example_soup ''profit-loss'') ''Sales +''
     = Some [(''Mar 2023'', 1200), (''Mar 2024'', 0)] \<and>
   map_of (parse_table sample_float example_soup ''profit-loss'') ''Expenses +''
     = Some [(''Mar 2023'', 700), (''Mar 2024'', 800), (''TTM'', 900)]"
proof -
  let ?hs = "[''Mar 2023'', ''Mar 2024'', ''TTM'']"
  let ?s = "tr [td ''Sales +'', td ''1,200'', td ''n/a'']"
  let ?e = "tr [td '' Expenses + '', td ''700'', td ''800'', td ''900'', td ''5'']"
  have vs: "row_values sample_float ?s = [1200, 0]"
    by code_simp
  have ve: "row_values sample_float ?e = [700, 800, 900, 5]"
    by code_simp
  have ks: "row_key ?s = ''Sales +''" and ke: "row_key ?e = ''Expenses +''"
    by code_simp+
  have cs: "2 \<le> length (row_cells ?s)" and ce: "2 \<le> length (row_cells ?e)"
    by code_simp+
  have ts: "table_of example_soup ''profit-loss'' = Some (?hs, take 3 example_rows @ ?s # [])"
    by code_simp
  have te: "table_of example_soup ''profit-loss'' = Some (?hs, take 1 example_rows @ ?e # drop 2 example_rows)"
    by code_simp
  have pe: "\<forall>q \<in> set (drop 2 example_rows). 2 \<le> length (row_cells q) \<longrightarrow> row_key q \<noteq> row_key ?e"
    by code_simp
  have ps: "\<forall>q \<in> set []. 2 \<le> length (row_cells q) \<longrightarrow> row_key q \<noteq> row_key ?s"
    by simp
  have ns: "min (length ?hs) (length (row_values sample_float ?s)) = 2"
    and ne: "min (length ?hs) (length (row_values sample_float ?e)) = 3"
    by (simp_all add: vs ve)
  note S = row_series_pairing [where pyfloat = sample_float and r = ?s and headers = ?hs
        and soup = example_soup and section_id = "''profit-loss''"
        and pre = "take 3 example_rows" and post = "[]"]
  note E = row_series_pairing [where pyfloat = sample_float and r = ?e and headers = ?hs
        and soup = example_soup and section_id = "''profit-loss''"
        and pre = "take 1 example_rows" and post = "drop 2 example_rows"]
  have "distinct (take (min (length ?hs) (length (row_values sample_float ?s))) ?hs)"
    by (simp add: vs)
  with S have "row_series sample_float ?hs ?s
      = zip (take (min (length ?hs) (length (row_values sample_float ?s))) ?hs)
            (take (min (length ?hs) (length (row_values sample_float ?s))) (row_values sample_float ?s))"
    by blast
  then have rs: "row_series sample_float ?hs ?s = [(''Mar 2023'', 1200), (''Mar 2024'', 0)]"
    by (simp add: vs)
  have "distinct (take (min (length ?hs) (length (row_values sample_float ?e))) ?hs)"
    by (simp add: ve)
  with E have "row_series sample_float ?hs ?e
      = zip (take (min (length ?hs) (length (row_values sample_float ?e))) ?hs)
            (take (min (length ?hs) (length (row_values sample_float ?e))) (row_values sample_float ?e))"
    by blast
  then have re: "row_series sample_float ?hs ?e
      = [(''Mar 2023'', 700), (''Mar 2024'', 800), (''TTM'', 900)]"
    by (simp add: ve)
  have "map_of (parse_table sample_float example_soup ''profit-loss'') (row_key ?s)
      = Some (row_series sample_float ?hs ?s)"
    using S ts cs ps by blast
  moreover have "map_of (parse_table sample_float example_soup ''profit-loss'') (row_key ?e)
      = Some (row_series sample_float ?hs ?e)"
    using E te ce pe by blast
  ultimately show ?thesis
    using ns ne by (simp only: rs re ks ke simp_thms)
qed

section \<open>parse_table: repeated line items and repeated periods\<close>

lemma wf_parse_table: "wf_dict (parse_table pyfloat soup section_id)"
proof -
  have e: "wf_dict ([] :: (string \<times> (string \<times> 'a) list) list)"
    by (simp add: wf_dict_def)
  show ?thesis
  proof (cases "table_of soup section_id")
    case None
    then show ?thesis using e by (simp add: parse_table_table_of)
  next
    case (Some hr)
    obtain headers rows where "hr = (headers, rows)" by (cases hr)
    with Some have "parse_table pyfloat soup section_id
        = dict_update [] (row_entries pyfloat headers rows)"
      by (simp add: parse_table_table_of)
    with e show ?thesis by (simp add: wf_dict_update)
  qed
qed

lemma keys_parse_table:
  assumes "table_of soup section_id = Some (headers, rows)"
  shows "set (dict_keys (parse_table pyfloat soup section_id))
           = row_key ` {r \<in> set rows. 2 \<le> length (row_cells r)}"
proof -
  have "parse_table pyfloat soup section_id = dict_update [] (row_entries pyfloat headers rows)"
    using assms by (simp add: parse_table_table_of)
  then have "set (dict_keys (parse_table pyfloat soup section_id))
      = fst ` set (row_entries pyfloat headers rows)"
    by (simp add: dict_keys_def keys_dict_update)
  also have "\<dots> = row_key ` {r \<in> set rows. 2 \<le> length (row_cells r)}"
    by (auto simp: row_entries_def image_iff)
  finally show ?thesis .
qed

text \<open>
  C6. The extracted table holds every line-item label once: its keys are distinct and
  are the labels of the data rows with at least 2 cells. When a label occurs in several
  such rows, the table holds the series of the last one.
\<close>

theorem parse_table_labels:
  "wf_dict (parse_table pyfloat soup section_id) \<and>
   (table_of soup section_id = Some (headers, rows) \<longrightarrow>
      set (dict_keys (parse_table pyfloat soup section_id))
        = row_key ` {r \<in> set rows. 2 \<le> length (row_cells r)} \<and>
      length (parse_table pyfloat soup section_id)
        = card (row_key ` {r \<in> set rows. 2 \<le> length (row_cells r)})) \<and>
   (table_of soup section_id = Some (headers, pre @ r # post) \<and>
    2 \<le> length (row_cells r) \<and>
    (\<forall>q \<in> set post. 2 \<le> length (row_cells q) \<longrightarrow> row_key q \<noteq> row_key r) \<longrightarrow>
      map_of (parse_table pyfloat soup section_id) (row_key r)
        = Some (row_series pyfloat headers r))"
proof (intro conjI impI)
  show wf: "wf_dict (parse_table pyfloat soup section_id)"
    by (rule wf_parse_table)
  show k: "set (dict_keys (parse_table pyfloat soup section_id))
      = row_key ` {r \<in> set rows. 2 \<le> length (row_cells r)}"
    if "table_of soup section_id = Some (headers, rows)"
    using that by (rule keys_parse_table)
  show "length (parse_table pyfloat soup section_id)
      = card (row_key ` {r \<in> set rows. 2 \<le> length (row_cells r)})"
    if t: "table_of soup section_id = Some (headers, rows)"
  proof -
    have "distinct (dict_keys (parse_table pyfloat soup section_id))"
      using wf by (simp add: wf_dict_def dict_keys_def)
    then have "card (set (dict_keys (parse_table pyfloat soup section_id)))
        = length (dict_keys (parse_table pyfloat soup section_id))"
      by (rule distinct_card)
    then show ?thesis
      using k [OF t] by (simp add: dict_keys_def)
  qed
next
  assume h: "table_of soup section_id = Some (headers, pre @ r # post) \<and>
    2 \<le> length (row_cells r) \<and>
    (\<forall>q \<in> set post. 2 \<le> length (row_cells q) \<longrightarrow> row_key q \<noteq> row_key r)"
  then have t: "table_of soup section_id = Some (headers, pre @ r # post)"
    and r: "2 \<le> length (row_cells r)"
    and p: "\<forall>q \<in> set post. 2 \<le> length (row_cells q) \<longrightarrow> row_key q \<noteq> row_key r"
    by blast+
  show "map_of (parse_table pyfloat soup section_id) (row_key r)
      = Some (row_series pyfloat headers r)"
    using t r p by (rule parse_table_last_row)
qed

theorem parse_table_labels_witness:
  "table_of example_soup ''profit-loss''
     = Some ([''Mar 2023'', ''Mar 2024'', ''TTM''], example_rows) \<and>
   row_key (example_rows ! 0) = ''Sales +'' \<and> row_key (example_rows ! 3) = ''Sales +'' \<and>
   dict_keys (parse_table sample_float example_soup ''profit-loss'') = [''Sales +'', ''Expenses +''] \<and>
   set (dict_keys (parse_table sample_float example_soup ''profit-loss''))
     = row_key ` {r \<in> set example_rows. 2 \<le> length (row_cells r)} \<and>
   map_of (parse_table sample_float example_soup ''profit-loss'') ''Sales +''
     = Some (row_series sample_float [''Mar 2023'', ''Mar 2024'', ''TTM''] (example_rows ! 3)) \<and>
   row_series sample_float [''Mar 2023'', ''Mar 2024'', ''TTM''] (example_rows ! 3)
     = [(''Mar 2023'', 1200), (''Mar 2024'', 0)]"
proof -
  let ?hs = "[''Mar 2023'', ''Mar 2024'', ''TTM'']"
  have t: "table_of example_soup ''profit-loss'' = Some (?hs, example_rows)"
    by code_simp
  have t': "table_of example_soup ''profit-loss''
      = Some (?hs, take 3 example_rows @ (example_rows ! 3) # [])"
    by code_simp
  have k0: "row_key (example_rows ! 0) = ''Sales +''"
    and k3: "row_key (example_rows ! 3) = ''Sales +''"
    by code_simp+
  have c: "2 \<le> length (row_cells (example_rows ! 3))"
    by code_simp
  have p: "\<forall>q \<in> set []. 2 \<le> length (row_cells q) \<longrightarrow> row_key q \<noteq> row_key (example_rows ! 3)"
    by simp
  have ks: "dict_keys (parse_table sample_float example_soup ''profit-loss'')
      = [''Sales +'', ''Expenses +'']"
    by code_simp
  have rs: "row_series sample_float ?hs (example_rows ! 3) = [(''Mar 2023'', 1200), (''Mar 2024'', 0)]"
    by code_simp
  have "set (dict_keys (parse_table sample_float example_soup ''profit-loss''))
      = row_key ` {r \<in> set example_rows. 2 \<le> length (row_cells r)}"
    using parse_table_labels [where pyfloat = sample_float and soup = example_soup
        and section_id = "''profit-loss''" and headers = ?hs and rows = example_rows] t
    by blast
  moreover have "map_of (parse_table sample_float example_soup ''profit-loss'')
        (row_key (example_rows ! 3))
      = Some (row_series sample_float ?hs (example_rows ! 3))"
    using parse_table_labels [where pyfloat = sample_float and soup = example_soup
        and section_id = "''profit-loss''" and headers = ?hs and pre = "take 3 example_rows"
        and r = "example_rows ! 3" and post = "[]"] t' c p
    by blast
  ultimately show ?thesis
    using t k0 ks rs by (simp only: k3 simp_thms)
qed

lemma card_set_less: "\<not> distinct xs \<Longrightarrow> card (set xs) < length xs"
proof -
  assume nd: "\<not> distinct xs"
  have "card (set xs) \<le> length xs"
    by (rule card_length)
  moreover have "card (set xs) \<noteq> length xs"
    using nd card_distinct by blast
  ultimately show ?thesis by simp
qed

text \<open>
  C10. When the header row repeats a period label, the series of a row still holds
  every paired label once; the value under a label is the one of the last paired column
  with that label, and the series then has fewer entries than the row has parsed
  values.
\<close>

theorem row_series_repeated_labels:
  "wf_dict (row_series pyfloat headers r) \<and>
   set (dict_keys (row_series pyfloat headers r))
     = set (take (min (length headers) (length (row_values pyfloat r))) headers) \<and>
   length (row_series pyfloat headers r)
     = card (set (take (min (length headers) (length (row_values pyfloat r))) headers)) \<and>
   (i < min (length headers) (length (row_values pyfloat r)) \<and>
    (\<forall>j. i < j \<and> j < min (length headers) (length (row_values pyfloat r))
       \<longrightarrow> headers ! j \<noteq> headers ! i) \<longrightarrow>
      map_of (row_series pyfloat headers r) (headers ! i) = Some (row_values pyfloat r ! i)) \<and>
   (\<not> distinct (take (min (length headers) (length (row_values pyfloat r))) headers) \<longrightarrow>
      length (row_series pyfloat headers r) < min (length headers) (length (row_values pyfloat r)) \<and>
      length (row_series pyfloat headers r) < length (row_values pyfloat r))"
proof (intro conjI impI)
  let ?vs = "row_values pyfloat r"
  let ?n = "min (length headers) (length ?vs)"
  show "wf_dict (row_series pyfloat headers r)"
    by (simp add: row_series_def wf_dict_of)
  show "set (dict_keys (row_series pyfloat headers r)) = set (take ?n headers)"
    unfolding row_series_def by (simp only: keys_dict_of fst_set_zip_take)
  show len: "length (row_series pyfloat headers r) = card (set (take ?n headers))"
    unfolding row_series_def by (simp only: length_dict_of fst_set_zip_take)
  show "map_of (row_series pyfloat headers r) (headers ! i) = Some (?vs ! i)"
    if "i < ?n \<and> (\<forall>j. i < j \<and> j < ?n \<longrightarrow> headers ! j \<noteq> headers ! i)"
    unfolding row_series_def
    using that by (intro dict_of_zip_lookup) simp_all
  have less: "length (row_series pyfloat headers r) < ?n" if nd: "\<not> distinct (take ?n headers)"
  proof -
    have "card (set (take ?n headers)) < length (take ?n headers)"
      using nd by (rule card_set_less)
    also have "length (take ?n headers) = ?n"
      by simp
    finally show ?thesis
      using len by (simp only:)
  qed
  then show "length (row_series pyfloat headers r) < ?n" if "\<not> distinct (take ?n headers)"
    using that .
  show "length (row_series pyfloat headers r) < length ?vs" if "\<not> distinct (take ?n headers)"
    using less [OF that] by simp
qed

theorem row_series_repeated_labels_witness:
  "table_of repeated_label_soup ''balance-sheet''
     = Some ([''Mar 2023'', ''Mar 2023''], [tr [td ''Fixed Assets +'', td ''10'', td ''20'']]) \<and>
   row_values sample_float (tr [td ''Fixed Assets +'', td ''10'', td ''20'']) = [10, 20] \<and>
   \<not> distinct (take (min (length [''Mar 2023'', ''Mar 2023''])
       (length (row_values sample_float (tr [td ''Fixed Assets +'', td ''10'', td ''20''])))) 
       [''Mar 2023'', ''Mar 2023'']) \<and>
   length (row_series sample_float [''Mar 2023'', ''Mar 2023'']
       (tr [td ''Fixed Assets +'', td ''10'', td ''20'']))
     < length (row_values sample_float (tr [td ''Fixed Assets +'', td ''10'', td ''20''])) \<and>
   map_of (row_series sample_float [''Mar 2023'', ''Mar 2023'']
       (tr [td ''Fixed Assets +'', td ''10'', td ''20''])) ''Mar 2023'' = Some 20 \<and>
   parse_table sample_float repeated_label_soup ''balance-sheet''
     = [(''Fixed Assets +'', [(''Mar 2023'', 20)])]"
proof -
  let ?hs = "[''Mar 2023'', ''Mar 2023'']"
  let ?r = "tr [td ''Fixed Assets +'', td ''10'', td ''20'']"
  have t: "table_of repeated_label_soup ''balance-sheet'' = Some (?hs, [?r])"
    by code_simp
  have vs: "row_values sample_float ?r = [10, 20]"
    by code_simp
  have nd: "\<not> distinct (take (min (length ?hs) (length (row_values sample_float ?r))) ?hs)"
    by (simp add: vs)
  have pt: "parse_table sample_float repeated_label_soup ''balance-sheet''
      = [(''Fixed Assets +'', [(''Mar 2023'', 20)])]"
    by code_simp
  note R = row_series_repeated_labels [where pyfloat = sample_float and headers = ?hs and r = ?r]
  have "length (row_series sample_float ?hs ?r) < length (row_values sample_float ?r)"
    using R nd by blast
  moreover have "map_of (row_series sample_float ?hs ?r) (?hs ! 1) = Some (row_values sample_float ?r ! 1)"
    using R [where i = 1] by (simp add: vs)
  ultimately show ?thesis
    using t vs nd pt by simp
qed

section \<open>build_dcf_inputs\<close>

lemma list_getitem_second_last:
  assumes "2 \<le> length xs"
  shows "list_getitem xs (- 2) = Inr (xs ! (length xs - 2))"
proof -
  have "nat (int (length xs) + - 2) = length xs - 2"
    using assms by simp
  moreover have "\<not> (int (length xs) + - 2 < 0)"
    using assms by simp
  ultimately show ?thesis
    by (simp add: list_getitem_def Let_def)
qed

lemma dict_getitem_key:
  assumes "k \<in> set (dict_keys d)"
  shows "\<exists>v. dict_getitem d k = Inr v"
proof -
  have "map_of d k \<noteq> None"
    using assms by (simp add: dict_keys_def map_of_eq_None_iff)
  then show ?thesis
    by (auto simp: dict_getitem_def)
qed


lemma latest_value_total: "\<exists>v. latest_value row = Inr v"
proof (cases "row = []")
  case True
  then show ?thesis by (simp add: latest_value_def)
next
  case False
  show ?thesis
  proof (cases "dict_contains row ''TTM''")
    case True
    then have "map_of row ''TTM'' \<noteq> None"
      by (simp add: dict_contains_def dict_keys_def map_of_eq_None_iff)
    then show ?thesis
      using True False by (auto simp: latest_value_def dict_getitem_def)
  next
    case no: False
    have "list_getitem (dict_values row) (- 1) = Inr (last (dict_values row))"
      using False by (intro list_getitem_last) (simp add: dict_values_def)
    then show ?thesis
      using no False by (simp add: latest_value_def)
  qed
qed

lemma last_two_total:
  assumes "2 \<le> length (dict_keys d)"
  shows "\<exists>x1 x2. \<forall>f :: 'v \<Rightarrow> 'v \<Rightarrow> py_error + 'b.
           bind_err (list_getitem (dict_keys d) (- 1)) (\<lambda>k1.
           bind_err (dict_getitem d k1) (\<lambda>v1.
           bind_err (list_getitem (dict_keys d) (- 2)) (\<lambda>k2.
           bind_err (dict_getitem d k2) (\<lambda>v2. f v1 v2)))) = f x1 x2"
proof -
  define years where "years = dict_keys d"
  have k: "2 \<le> length years"
    using assms by (simp add: years_def)
  then have ne: "years \<noteq> []" by auto
  have l1: "list_getitem years (- 1) = Inr (last years)"
    using ne by (rule list_getitem_last)
  have l2: "list_getitem years (- 2) = Inr (years ! (length years - 2))"
    using k by (rule list_getitem_second_last)
  have "last years \<in> set (dict_keys d)"
    using ne by (simp add: years_def)
  then have "\<exists>v. dict_getitem d (last years) = Inr v"
    by (rule dict_getitem_key)
  then obtain a where a: "dict_getitem d (last years) = Inr a" ..
  have "length years - 2 < length years"
    using k by arith
  then have "years ! (length years - 2) \<in> set (dict_keys d)"
    unfolding years_def by (rule nth_mem)
  then have "\<exists>v. dict_getitem d (years ! (length years - 2)) = Inr v"
    by (rule dict_getitem_key)
  then obtain b where b: "dict_getitem d (years ! (length years - 2)) = Inr b" ..
  have "\<forall>f :: 'v \<Rightarrow> 'v \<Rightarrow> py_error + 'b.
         bind_err (list_getitem years (- 1)) (\<lambda>k1.
           bind_err (dict_getitem d k1) (\<lambda>v1.
           bind_err (list_getitem years (- 2)) (\<lambda>k2.
           bind_err (dict_getitem d k2) (\<lambda>v2. f v1 v2)))) = f a b"
    by (simp add: l1 l2 a b bind_err_def)
  then show ?thesis
    unfolding years_def by (intro exI)
qed








section \<open>build_dcf_inputs: the tax rate\<close>

lemmas fl_eval = fl_def ilog2_def pow2_def round_half_even_def Let_def compute_bitlen

lemma round_half_even_nearest:
  "\<bar>of_int (round_half_even y) - y\<bar> \<le> 1 / 2 \<and>
   (\<bar>of_int (round_half_even y) - y\<bar> = 1 / 2 \<longrightarrow> even (round_half_even y))"
proof -
  have lo: "of_int \<lfloor>y\<rfloor> \<le> y" and hi: "y < of_int \<lfloor>y\<rfloor> + 1"
    by linarith+
  consider "y - of_int \<lfloor>y\<rfloor> < 1 / 2" | "1 / 2 < y - of_int \<lfloor>y\<rfloor>"
    | "y - of_int \<lfloor>y\<rfloor> = 1 / 2" "even \<lfloor>y\<rfloor>" | "y - of_int \<lfloor>y\<rfloor> = 1 / 2" "odd \<lfloor>y\<rfloor>"
    by linarith
  then show ?thesis
  proof cases
    case 1
    then have "round_half_even y = \<lfloor>y\<rfloor>"
      by (simp add: round_half_even_def Let_def)
    with 1 lo show ?thesis by simp
  next
    case 2
    then have "round_half_even y = \<lfloor>y\<rfloor> + 1"
      by (simp add: round_half_even_def Let_def)
    with 2 hi show ?thesis by simp
  next
    case 3
    then have "round_half_even y = \<lfloor>y\<rfloor>"
      by (simp add: round_half_even_def Let_def)
    with 3 show ?thesis by simp
  next
    case 4
    then have "round_half_even y = \<lfloor>y\<rfloor> + 1"
      by (simp add: round_half_even_def Let_def)
    with 4 show ?thesis by simp
  qed
qed

lemma gt_zero_nonzero: "gt_zero y \<Longrightarrow> y \<noteq> Finite 0"
  by (cases y) simp_all

lemma py_truediv_nonzero: "y \<noteq> Finite 0 \<Longrightarrow> py_truediv x y = Inr (f64_quot x y)"
  by (simp add: py_truediv_def)

lemma guarded_ratio:
  "(if truthy r then py_truediv e r else Inr 0) = Inr (if truthy r then f64_quot e r else 0)"
  by (simp add: truthy_def py_truediv_def)

lemma capex_of_f64_total: "\<exists>c. capex_of_f64 bs depreciation = Inr c"
proof (cases "2 \<le> length (dict_keys (dict_get bs ''Fixed Assets +'' []))")
  case True
  from last_two_total [OF True]
  obtain x1 where "\<exists>x2. \<forall>f :: f64 \<Rightarrow> f64 \<Rightarrow> py_error + f64.
      bind_err (list_getitem (dict_keys (dict_get bs ''Fixed Assets +'' [])) (- 1)) (\<lambda>k1.
        bind_err (dict_getitem (dict_get bs ''Fixed Assets +'' []) k1) (\<lambda>v1.
        bind_err (list_getitem (dict_keys (dict_get bs ''Fixed Assets +'' [])) (- 2)) (\<lambda>k2.
        bind_err (dict_getitem (dict_get bs ''Fixed Assets +'' []) k2) (\<lambda>v2. f v1 v2)))) = f x1 x2" ..
  then obtain x2 where x: "\<forall>f :: f64 \<Rightarrow> f64 \<Rightarrow> py_error + f64.
      bind_err (list_getitem (dict_keys (dict_get bs ''Fixed Assets +'' [])) (- 1)) (\<lambda>k1.
        bind_err (dict_getitem (dict_get bs ''Fixed Assets +'' []) k1) (\<lambda>v1.
        bind_err (list_getitem (dict_keys (dict_get bs ''Fixed Assets +'' [])) (- 2)) (\<lambda>k2.
        bind_err (dict_getitem (dict_get bs ''Fixed Assets +'' []) k2) (\<lambda>v2. f v1 v2)))) = f x1 x2" ..
  from True have "capex_of_f64 bs depreciation = Inr (f64_add (f64_sub x1 x2) depreciation)"
    by (simp add: capex_of_f64_def Let_def x)
  then show ?thesis by (intro exI)
next
  case False
  then show ?thesis
    by (simp add: capex_of_f64_def Let_def)
qed

lemma capex_pct_of_f64_total: "\<exists>c. capex_pct_of_f64 bs depreciation revenue' = Inr c"
proof -
  obtain capex where "capex_of_f64 bs depreciation = Inr capex"
    using capex_of_f64_total [of bs depreciation] ..
  then have "capex_pct_of_f64 bs depreciation revenue'
      = Inr (if truthy revenue' then f64_quot capex revenue' else 0)"
    by (simp add: capex_pct_of_f64_def bind_err_def guarded_ratio)
  then show ?thesis by (intro exI)
qed

lemma nwc_pct_of_f64_total: "\<exists>c. nwc_pct_of_f64 bs revenue' = Inr c"
proof (cases "2 \<le> length (dict_keys (dict_get bs ''Other Assets +'' [])) \<and>
    2 \<le> length (dict_keys (dict_get bs ''Other Liabilities +'' []))")
  case True
  then have oa: "2 \<le> length (dict_keys (dict_get bs ''Other Assets +'' []))"
    and ol: "2 \<le> length (dict_keys (dict_get bs ''Other Liabilities +'' []))"
    by simp_all
  from last_two_total [OF oa]
  obtain x1 where "\<exists>x2. \<forall>f :: f64 \<Rightarrow> f64 \<Rightarrow> py_error + f64.
      bind_err (list_getitem (dict_keys (dict_get bs ''Other Assets +'' [])) (- 1)) (\<lambda>k1.
        bind_err (dict_getitem (dict_get bs ''Other Assets +'' []) k1) (\<lambda>v1.
        bind_err (list_getitem (dict_keys (dict_get bs ''Other Assets +'' [])) (- 2)) (\<lambda>k2.
        bind_err (dict_getitem (dict_get bs ''Other Assets +'' []) k2) (\<lambda>v2. f v1 v2)))) = f x1 x2" ..
  then obtain x2 where x: "\<forall>f :: f64 \<Rightarrow> f64 \<Rightarrow> py_error + f64.
      bind_err (list_getitem (dict_keys (dict_get bs ''Other Assets +'' [])) (- 1)) (\<lambda>k1.
        bind_err (dict_getitem (dict_get bs ''Other Assets +'' []) k1) (\<lambda>v1.
        bind_err (list_getitem (dict_keys (dict_get bs ''Other Assets +'' [])) (- 2)) (\<lambda>k2.
        bind_err (dict_getitem (dict_get bs ''Other Assets +'' []) k2) (\<lambda>v2. f v1 v2)))) = f x1 x2" ..
  from last_two_total [OF ol]
  obtain y1 where "\<exists>y2. \<forall>f :: f64 \<Rightarrow> f64 \<Rightarrow> py_error + f64.
      bind_err (list_getitem (dict_keys (dict_get bs ''Other Liabilities +'' [])) (- 1)) (\<lambda>k1.
        bind_err (dict_getitem (dict_get bs ''Other Liabilities +'' []) k1) (\<lambda>v1.
        bind_err (list_getitem (dict_keys (dict_get bs ''Other Liabilities +'' [])) (- 2)) (\<lambda>k2.
        bind_err (dict_getitem (dict_get bs ''Other Liabilities +'' []) k2) (\<lambda>v2. f v1 v2)))) = f y1 y2" ..
  then obtain y2 where y: "\<forall>f :: f64 \<Rightarrow> f64 \<Rightarrow> py_error + f64.
      bind_err (list_getitem (dict_keys (dict_get bs ''Other Liabilities +'' [])) (- 1)) (\<lambda>k1.
        bind_err (dict_getitem (dict_get bs ''Other Liabilities +'' []) k1) (\<lambda>v1.
        bind_err (list_getitem (dict_keys (dict_get bs ''Other Liabilities +'' [])) (- 2)) (\<lambda>k2.
        bind_err (dict_getitem (dict_get bs ''Other Liabilities +'' []) k2) (\<lambda>v2. f v1 v2)))) = f y1 y2" ..
  from True have "nwc_pct_of_f64 bs revenue'
      = Inr (if truthy revenue'
             then f64_quot (f64_sub (f64_sub x1 x2) (f64_sub y1 y2)) revenue' else 0)"
    by (simp add: nwc_pct_of_f64_def Let_def x y guarded_ratio)
  then show ?thesis by (intro exI)
next
  case False
  then show ?thesis
    by (auto simp: nwc_pct_of_f64_def Let_def)
qed

lemma build_dcf_inputs_f64_tax_rate:
  assumes p: "latest_value (dict_get pl ''Profit before tax'' []) = Inr pbt"
    and q: "latest_value (dict_get pl ''Net Profit +'' []) = Inr pat"
  shows "\<exists>inputs. build_dcf_inputs_f64 pl bs cf = Inr inputs \<and>
           map_of inputs ''tax_rate''
             = Some (py_round_f64
                 (if gt_zero pbt then f64_quot (f64_sub pbt pat) pbt else Finite 0.25) 4)"
proof -
  obtain revenue' where r: "latest_value (dict_get pl ''Sales +'' []) = Inr revenue'"
    using latest_value_total [of "dict_get pl ''Sales +'' []"] ..
  obtain ebit where e: "latest_value (dict_get pl ''Operating Profit'' []) = Inr ebit"
    using latest_value_total [of "dict_get pl ''Operating Profit'' []"] ..
  obtain depreciation where d: "latest_value (dict_get pl ''Depreciation'' []) = Inr depreciation"
    using latest_value_total [of "dict_get pl ''Depreciation'' []"] ..
  obtain capex_pct' where c: "capex_pct_of_f64 bs depreciation revenue' = Inr capex_pct'"
    using capex_pct_of_f64_total [of bs depreciation revenue'] ..
  obtain nwc_pct' where n: "nwc_pct_of_f64 bs revenue' = Inr nwc_pct'"
    using nwc_pct_of_f64_total [of bs revenue'] ..
  obtain borrowings where b: "latest_value (dict_get bs ''Borrowings +'' []) = Inr borrowings"
    using latest_value_total [of "dict_get bs ''Borrowings +'' []"] ..
  obtain cash where k: "latest_value (dict_get bs ''Investments'' []) = Inr cash"
    using latest_value_total [of "dict_get bs ''Investments'' []"] ..
  have t: "(if gt_zero pbt then py_truediv (f64_sub pbt pat) pbt else Inr (Finite 0.25))
      = Inr (if gt_zero pbt then f64_quot (f64_sub pbt pat) pbt else Finite 0.25)"
    by (simp add: py_truediv_nonzero gt_zero_nonzero)
  show ?thesis
    unfolding build_dcf_inputs_f64_def
    by (simp add: p q r e d c n b k t guarded_ratio bind_err_def Let_def)
qed

text \<open>
  C7. With \<open>pbt\<close> the latest value of "Profit before tax" and \<open>pat\<close> the latest value
  of "Net Profit +" in the profit and loss table (both always exist),
  \<^verbatim>\<open>build_dcf_inputs\<close> returns, and its tax rate is the float quotient
  \<open>(pbt - pat) / pbt\<close> rounded to 4 decimal places when \<open>pbt > 0\<close>, and the fallback 0.25
  otherwise, so for every \<open>pbt \<le> 0\<close>. Rounding a finite \<open>x\<close> to 4 places gives the double
  nearest to \<open>k / 10000\<close>, where \<open>k\<close> is the integer nearest to \<open>x * 10000\<close>, the even
  one of the two when \<open>x * 10000\<close> lies half way.
\<close>

theorem tax_rate_rule:
  "(\<exists>pbt. latest_value (dict_get pl ''Profit before tax'' []) = Inr pbt) \<and>
   (\<exists>pat. latest_value (dict_get pl ''Net Profit +'' []) = Inr pat) \<and>
   (latest_value (dict_get pl ''Profit before tax'' []) = Inr pbt \<and>
    latest_value (dict_get pl ''Net Profit +'' []) = Inr pat \<longrightarrow>
      (\<exists>inputs. build_dcf_inputs_f64 pl bs cf = Inr inputs \<and>
         (gt_zero pbt \<longrightarrow>
            map_of inputs ''tax_rate''
              = Some (py_round_f64 (f64_quot (f64_sub pbt pat) pbt) 4)) \<and>
         (\<not> gt_zero pbt \<longrightarrow> map_of inputs ''tax_rate'' = Some (Finite 0.25)))) \<and>
   py_round_f64 (Finite x) 4 = fl (of_int (round_half_even (x * 10 ^ 4)) / 10 ^ 4) \<and>
   \<bar>of_int (round_half_even (x * 10 ^ 4)) - x * 10 ^ 4\<bar> \<le> 1 / 2 \<and>
   (\<bar>of_int (round_half_even (x * 10 ^ 4)) - x * 10 ^ 4\<bar> = 1 / 2 \<longrightarrow>
      even (round_half_even (x * 10 ^ 4)))"
proof (intro conjI impI)
  show "\<exists>pbt. latest_value (dict_get pl ''Profit before tax'' []) = Inr pbt"
    by (rule latest_value_total)
  show "\<exists>pat. latest_value (dict_get pl ''Net Profit +'' []) = Inr pat"
    by (rule latest_value_total)
  show "py_round_f64 (Finite x) 4 = fl (of_int (round_half_even (x * 10 ^ 4)) / 10 ^ 4)"
    by simp
  show "\<bar>of_int (round_half_even (x * 10 ^ 4)) - x * 10 ^ 4\<bar> \<le> 1 / 2"
    using round_half_even_nearest [of "x * 10 ^ 4"] by (rule conjunct1)
  show "even (round_half_even (x * 10 ^ 4))"
    if "\<bar>of_int (round_half_even (x * 10 ^ 4)) - x * 10 ^ 4\<bar> = 1 / 2"
    using round_half_even_nearest [of "x * 10 ^ 4"] that by (elim conjE impE)
next
  assume h: "latest_value (dict_get pl ''Profit before tax'' []) = Inr pbt \<and>
    latest_value (dict_get pl ''Net Profit +'' []) = Inr pat"
  from build_dcf_inputs_f64_tax_rate [OF conjunct1 [OF h] conjunct2 [OF h], of bs cf]
  obtain inputs where i: "build_dcf_inputs_f64 pl bs cf = Inr inputs"
    and t: "map_of inputs ''tax_rate''
      = Some (py_round_f64
          (if gt_zero pbt then f64_quot (f64_sub pbt pat) pbt else Finite 0.25) 4)"
    by (elim exE conjE)
  have quarter: "py_round_f64 (Finite 0.25) 4 = Finite 0.25"
    by (simp add: fl_eval)
  have "gt_zero pbt \<longrightarrow>
      map_of inputs ''tax_rate'' = Some (py_round_f64 (f64_quot (f64_sub pbt pat) pbt) 4)"
    using t by simp
  moreover have "\<not> gt_zero pbt \<longrightarrow> map_of inputs ''tax_rate'' = Some (Finite 0.25)"
    using t quarter by simp
  ultimately show "\<exists>inputs. build_dcf_inputs_f64 pl bs cf = Inr inputs \<and>
         (gt_zero pbt \<longrightarrow>
            map_of inputs ''tax_rate''
              = Some (py_round_f64 (f64_quot (f64_sub pbt pat) pbt) 4)) \<and>
         (\<not> gt_zero pbt \<longrightarrow> map_of inputs ''tax_rate'' = Some (Finite 0.25))"
    using i by (intro exI conjI)
qed

theorem tax_rate_rule_witness:
  "latest_value (dict_get rounding_pl ''Profit before tax'' []) = Inr (Finite 100000) \<and>
   latest_value (dict_get rounding_pl ''Net Profit +'' []) = Inr (Finite 87655) \<and>
   gt_zero (Finite 100000) \<and>
   f64_sub (Finite 100000) (Finite 87655) = Finite 12345 \<and>
   f64_quot (Finite 12345) (Finite 100000) = Finite (2223877495995551 / 18014398509481984) \<and>
   round_half_even (2223877495995551 / 18014398509481984 * 10 ^ 4) = 1235 \<and>
   fl (1235 / 10 ^ 4) = Finite (2224778215921025 / 18014398509481984) \<and>
   (\<exists>inputs. build_dcf_inputs_f64 rounding_pl [] [] = Inr inputs \<and>
      map_of inputs ''tax_rate'' = Some (Finite (2224778215921025 / 18014398509481984))) \<and>
   latest_value (dict_get loss_pl ''Profit before tax'' []) = Inr (Finite (- 500)) \<and>
   latest_value (dict_get loss_pl ''Net Profit +'' []) = Inr (Finite (- 400)) \<and>
   \<not> gt_zero (Finite (- 500)) \<and>
   (\<exists>inputs. build_dcf_inputs_f64 loss_pl [] [] = Inr inputs \<and>
      map_of inputs ''tax_rate'' = Some (Finite 0.25)) \<and>
   \<bar>of_int (round_half_even (1 / 8 * 10 ^ 4)) - 1 / 8 * 10 ^ 4\<bar> \<le> (1 / 2 :: real) \<and>
   round_half_even (12345 / 100000 * 10 ^ 4) = 1234 \<and>
   \<bar>of_int (round_half_even (12345 / 100000 * 10 ^ 4)) - 12345 / 100000 * 10 ^ 4\<bar> = (1 / 2 :: real) \<and>
   even (round_half_even (12345 / 100000 * 10 ^ 4))"
proof -
  let ?q = "2223877495995551 / 18014398509481984 :: real"
  let ?r = "2224778215921025 / 18014398509481984 :: real"
  have p: "latest_value (dict_get rounding_pl ''Profit before tax'' []) = Inr (Finite 100000)"
    by (simp add: rounding_pl_def dict_get_def latest_value_def dict_contains_def dict_keys_def
        dict_getitem_def)
  have q: "latest_value (dict_get rounding_pl ''Net Profit +'' []) = Inr (Finite 87655)"
    by (simp add: rounding_pl_def dict_get_def latest_value_def dict_contains_def dict_keys_def
        dict_getitem_def)
  have p': "latest_value (dict_get loss_pl ''Profit before tax'' []) = Inr (Finite (- 500))"
    by (simp add: loss_pl_def dict_get_def latest_value_def dict_contains_def dict_keys_def
        dict_getitem_def)
  have q': "latest_value (dict_get loss_pl ''Net Profit +'' []) = Inr (Finite (- 400))"
    by (simp add: loss_pl_def dict_get_def latest_value_def dict_contains_def dict_keys_def
        dict_getitem_def)
  have g: "gt_zero (Finite 100000)" and g': "\<not> gt_zero (Finite (- 500))"
    by simp_all
  have s: "f64_sub (Finite 100000) (Finite 87655) = Finite 12345"
    by (simp add: f64_sub_def fl_eval)
  have d: "f64_quot (Finite 12345) (Finite 100000) = Finite ?q"
    by (simp add: fl_eval)
  have k: "round_half_even (?q * 10 ^ 4) = 1235"
    by (simp add: round_half_even_def Let_def)
  have f: "fl (1235 / 10 ^ 4) = Finite ?r"
    by (simp add: fl_eval)
  note T = tax_rate_rule [of rounding_pl "Finite 100000" "Finite 87655" "[]" "[]" ?q]
  note T' = tax_rate_rule [of loss_pl "Finite (- 500)" "Finite (- 400)" "[]" "[]" "1 / 8"]
  note T'' = tax_rate_rule [of loss_pl "Finite (- 500)" "Finite (- 400)" "[]" "[]" "12345 / 100000"]
  from T [THEN conjunct2, THEN conjunct2, THEN conjunct1, rule_format, OF conjI [OF p q]]
  obtain i1 where i1: "build_dcf_inputs_f64 rounding_pl [] [] = Inr i1"
    and t1: "gt_zero (Finite 100000) \<longrightarrow>
      map_of i1 ''tax_rate''
        = Some (py_round_f64 (f64_quot (f64_sub (Finite 100000) (Finite 87655)) (Finite 100000)) 4)"
    by (elim exE conjE)
  note rq = T [THEN conjunct2, THEN conjunct2, THEN conjunct2, THEN conjunct1]
  from t1 g have "map_of i1 ''tax_rate''
      = Some (py_round_f64 (f64_quot (f64_sub (Finite 100000) (Finite 87655)) (Finite 100000)) 4)"
    by (rule mp)
  then have "map_of i1 ''tax_rate'' = Some (py_round_f64 (Finite ?q) 4)"
    by (simp only: s d)
  then have "map_of i1 ''tax_rate'' = Some (fl (of_int 1235 / 10 ^ 4))"
    by (simp only: rq k)
  then have "map_of i1 ''tax_rate'' = Some (Finite ?r)"
    using f by simp
  with i1 have a: "\<exists>inputs. build_dcf_inputs_f64 rounding_pl [] [] = Inr inputs \<and>
      map_of inputs ''tax_rate'' = Some (Finite ?r)"
    by (intro exI conjI)
  from T' [THEN conjunct2, THEN conjunct2, THEN conjunct1, rule_format, OF conjI [OF p' q']]
  obtain i2 where i2: "build_dcf_inputs_f64 loss_pl [] [] = Inr i2"
    and t2: "\<not> gt_zero (Finite (- 500)) \<longrightarrow> map_of i2 ''tax_rate'' = Some (Finite 0.25)"
    by (elim exE conjE)
  have "map_of i2 ''tax_rate'' = Some (Finite 0.25)"
    using t2 g' by (rule mp)
  with i2 have b: "\<exists>inputs. build_dcf_inputs_f64 loss_pl [] [] = Inr inputs \<and>
      map_of inputs ''tax_rate'' = Some (Finite 0.25)"
    by (intro exI conjI)
  note c = T' [THEN conjunct2, THEN conjunct2, THEN conjunct2, THEN conjunct2, THEN conjunct1]
  have k2: "round_half_even (12345 / 100000 * 10 ^ 4) = 1234"
    by (simp add: round_half_even_def Let_def)
  have tie: "\<bar>of_int (round_half_even (12345 / 100000 * 10 ^ 4)) - 12345 / 100000 * 10 ^ 4\<bar> = (1 / 2 :: real)"
    unfolding k2 by simp
  have ev: "even (round_half_even (12345 / 100000 * 10 ^ 4))"
    using T'' [THEN conjunct2, THEN conjunct2, THEN conjunct2, THEN conjunct2, THEN conjunct2] tie
    by (rule mp)
  show ?thesis
    using p q g s d k f a p' q' g' b c k2 tie ev by (intro conjI)
qed

end
